theory Spec2Isabelle
  imports Complex_Main "HOL-Library.Word" "HOL-Library.Log_Nat"
begin

section \<open>The persistence helper \<open>ethDB\<close> (package \<open>simple\<close>)\<close>

text \<open>
  Go strings are byte sequences and \<open>[]byte(s)\<close> copies the bytes of \<open>s\<close>, so keys and
  blobs are both modelled as lists of 8-bit characters.
\<close>

type_synonym bytes = string

text \<open>\<open>const prefixKey = "pbft"\<close>\<close>

definition prefixKey :: string where
  "prefixKey = ''pbft''"

text \<open>
  \<open>strings.Join(elems, sep)\<close> of the Go standard library: the elements in order, with
  \<open>sep\<close> between each two neighbours and none at either end.
\<close>

fun Join :: "string list \<Rightarrow> string \<Rightarrow> string" where
  "Join [] sep = []"
| "Join [x] sep = x"
| "Join (x # y # ys) sep = x @ sep @ Join (y # ys) sep"

text \<open>\<open>func (*ethDB) getKey(key string) string\<close>\<close>

definition getKey :: "string \<Rightarrow> string" where
  "getKey key = Join [prefixKey, key] ''_''"

text \<open>
  The variadic built-in \<open>append(s, more...)\<close>; \<open>Save\<close> calls it with no further
  elements.
\<close>

definition append_bytes :: "bytes \<Rightarrow> bytes list \<Rightarrow> bytes" where
  "append_bytes s more = s @ concat more"

text \<open>
  \<open>ethdb.Database\<close> is an interface of another package. The store is the
  parameter \<open>'db\<close>, and its two methods used here are the fields of \<open>database\<close>:
  \<open>Put\<close> returns its error (\<open>None\<close> for \<open>nil\<close>) and the store afterwards, \<open>Get\<close>
  returns an error or the blob. \<open>encoding/json\<close> is the record \<open>json\<close>:
  \<open>Marshal\<close> yields an error or the blob, \<open>Unmarshal blob val\<close> decodes into the
  value \<open>val\<close> points to and yields its error (\<open>None\<close> for \<open>nil\<close>) together with
  the value stored there afterwards, which a failed decoding may already have changed.
\<close>

record ('db, 'e) database =
  Put :: "bytes \<Rightarrow> bytes \<Rightarrow> 'db \<Rightarrow> 'e option \<times> 'db"
  Get :: "bytes \<Rightarrow> 'db \<Rightarrow> 'e + bytes"

record ('v, 'e) json =
  Marshal :: "'v \<Rightarrow> 'e + bytes"
  Unmarshal :: "bytes \<Rightarrow> 'v \<Rightarrow> 'e option \<times> 'v"

text \<open>
  \<open>func (e *ethDB) Save(key string, val interface{}) error\<close>: the returned error and
  the store afterwards.
\<close>

definition Save ::
  "('db, 'e) database \<Rightarrow> ('v, 'e) json \<Rightarrow> string \<Rightarrow> 'v \<Rightarrow> 'db \<Rightarrow> 'e option \<times> 'db" where
  "Save d j key val db =
     (case Marshal j val of
        Inl err \<Rightarrow> (Some err, db)
      | Inr blob \<Rightarrow> Put d (append_bytes (getKey key) []) blob db)"

text \<open>
  \<open>func (e *ethDB) Restore(key string, val interface{}) error\<close>: the returned error
  (\<open>None\<close> for \<open>nil\<close>) and the value behind \<open>val\<close> afterwards, which is untouched when
  the read fails and is what \<open>json.Unmarshal\<close> left there otherwise.
\<close>

definition Restore ::
  "('db, 'e) database \<Rightarrow> ('v, 'e) json \<Rightarrow> string \<Rightarrow> 'v \<Rightarrow> 'db \<Rightarrow> 'e option \<times> 'v" where
  "Restore d j key val db =
     (case Get d (getKey key) db of
        Inl err \<Rightarrow> (Some err, val)
      | Inr blob \<Rightarrow>
          (case Unmarshal j blob val of
             (Some err, val') \<Rightarrow> (Some err, val')
           | (None, val') \<Rightarrow> (None, val')))"

text \<open>
  An in-memory store in the style of a map-backed database, used to run the functions on
  concrete inputs: \<open>Put\<close> always succeeds, \<open>Get\<close> of an absent key fails.
\<close>

datatype store_error = NotFound | BadJSON | Unsupported

definition mem_db :: "((bytes \<times> bytes) list, store_error) database" where
  "mem_db = \<lparr> Put = (\<lambda>k b db. (None, (k, b) # db)),
              Get = (\<lambda>k db. case map_of db k of None \<Rightarrow> Inl NotFound | Some b \<Rightarrow> Inr b) \<rparr>"

text \<open>A toy codec for natural numbers in unary, standing in for JSON on concrete inputs.\<close>

definition unary_json :: "(nat, store_error) json" where
  "unary_json = \<lparr> Marshal = (\<lambda>n. Inr (replicate n CHR ''1'')),
                  Unmarshal = (\<lambda>b v. if set b \<subseteq> {CHR ''1''} then (None, length b)
                                     else (Some BadJSON, v)) \<rparr>"

definition failing_json :: "(nat, store_error) json" where
  "failing_json = \<lparr> Marshal = (\<lambda>n. Inl Unsupported),
                    Unmarshal = (\<lambda>b v. (Some BadJSON, v)) \<rparr>"

text \<open>
  \<open>encoding/json\<close> on the Go type \<open>struct { Exported int64; unexported int64 }\<close>.
  \<open>json.Marshal\<close> writes the exported field only, as an object with the one member
  \<open>Exported\<close> and the number in decimal. \<open>json.Unmarshal\<close> of such an object stores
  the number in the exported field of the target and leaves the unexported field of the
  target as it is. Of the texts \<open>json.Unmarshal\<close> accepts, the instance covers the
  objects \<open>json.Marshal\<close> writes for this type; any other text is reported as
  malformed, the target unchanged.
\<close>

record pair =
  Exported :: int
  unexported :: int

definition digit :: "nat \<Rightarrow> char" where
  "digit n = ''0123456789'' ! n"

function decimal :: "nat \<Rightarrow> string" where
  "decimal n = (if n < 10 then [digit n] else decimal (n div 10) @ [digit (n mod 10)])"
  by pat_completeness auto
termination
  by (relation "measure id") auto

declare decimal.simps [simp del]

definition format_int :: "int \<Rightarrow> string" where
  "format_int i = (if i < 0 then CHR ''-'' # decimal (nat (- i)) else decimal (nat i))"

definition digit_value :: "char \<Rightarrow> nat option" where
  "digit_value ch = map_of (zip ''0123456789'' [0 ..< 10]) ch"

fun parse_digits :: "string \<Rightarrow> nat \<Rightarrow> nat option" where
  "parse_digits [] acc = Some acc"
| "parse_digits (ch # cs) acc =
     (case digit_value ch of
        None \<Rightarrow> None
      | Some dgt \<Rightarrow> parse_digits cs (acc * 10 + dgt))"

text \<open>An integer in the decimal form \<open>format_int\<close> writes, within the range of \<open>int64\<close>.\<close>

definition parse_int64 :: "string \<Rightarrow> int option" where
  "parse_int64 t =
     (case (case t of
              [] \<Rightarrow> None
            | ch # cs \<Rightarrow>
                if ch = CHR ''-'' then map_option (\<lambda>n. - int n) (parse_digits cs 0)
                else map_option int (parse_digits t 0)) of
        None \<Rightarrow> None
      | Some i \<Rightarrow>
          if format_int i = t \<and> - (2 ^ 63) \<le> i \<and> i < 2 ^ 63 then Some i else None)"

definition member_prefix :: string where
  "member_prefix = [CHR ''{'', CHR 0x22] @ ''Exported'' @ [CHR 0x22, CHR '':'']"

definition pair_json :: "(pair, store_error) json" where
  "pair_json =
     \<lparr> Marshal = (\<lambda>v. Inr (member_prefix @ format_int (Exported v) @ ''}'')),
       Unmarshal = (\<lambda>blob v.
         if take (length member_prefix) blob = member_prefix \<and> blob \<noteq> []
            \<and> last blob = CHR ''}''
         then (case parse_int64 (butlast (drop (length member_prefix) blob)) of
                 None \<Rightarrow> (Some BadJSON, v)
               | Some i \<Rightarrow> (None, v\<lparr>Exported := i\<rparr>))
         else (Some BadJSON, v)) \<rparr>"


section \<open>IEEE 754 double precision, as far as \<open>New\<close> uses it\<close>

text \<open>
  \<open>New\<close> computes the fault bound in \<open>float64\<close>. A finite double is a rational with a
  53-bit significand, and every arithmetic operation returns the exact result rounded to
  the nearest such number, ties to the even significand. All values that occur in \<open>New\<close>
  are zero or lie between \<open>1/3\<close> and \<open>2^63\<close>, far inside the normal exponent range, so
  the exponent is left unbounded.
\<close>

definition round_half_even :: "rat \<Rightarrow> int" where
  "round_half_even y =
     (let m = \<lfloor>y\<rfloor>; r = y - of_int m
      in if r < 1 / 2 then m else if 1 / 2 < r then m + 1 else if even m then m else m + 1)"

text \<open>The binary exponent \<open>e\<close> of a positive rational: \<open>2^e \<le> x < 2^(e+1)\<close>.\<close>

definition float_exponent :: "rat \<Rightarrow> int" where
  "float_exponent x =
     (if 1 \<le> x then bitlen \<lfloor>x\<rfloor> - 1 else - bitlen (\<lceil>1 / x\<rceil> - 1))"

definition float64_round :: "rat \<Rightarrow> rat" where
  "float64_round x =
     (if x = 0 then 0
      else let u = 2 powi (float_exponent \<bar>x\<bar> - 52)
           in sgn x * of_int (round_half_even (\<bar>x\<bar> / u)) * u)"

text \<open>The conversion \<open>float64(n)\<close> of an \<open>int64\<close>, and \<open>x / y\<close>, \<open>x - y\<close> on doubles.\<close>

definition float64_of_int64 :: "int \<Rightarrow> rat" where
  "float64_of_int64 n = float64_round (of_int n)"

definition float64_div :: "rat \<Rightarrow> rat \<Rightarrow> rat" where
  "float64_div x y = float64_round (x / y)"

definition float64_sub :: "rat \<Rightarrow> rat \<Rightarrow> rat" where
  "float64_sub x y = float64_round (x - y)"

text \<open>\<open>math.Ceil\<close> is exact: the least integer not below its argument, as a double.\<close>

definition math_Ceil :: "rat \<Rightarrow> rat" where
  "math_Ceil x = of_int \<lceil>x\<rceil>"

text \<open>
  The conversion \<open>int64(x)\<close> of a double discards the fraction. Outside the range of
  \<open>int64\<close> Go leaves the result to the implementation; amd64 yields the least
  \<open>int64\<close>.
\<close>

definition int64_of_float64 :: "rat \<Rightarrow> int" where
  "int64_of_float64 x =
     (let t = (if 0 \<le> x then \<lfloor>x\<rfloor> else \<lceil>x\<rceil>)
      in if - (2 ^ 63) \<le> t \<and> t < 2 ^ 63 then t else - (2 ^ 63))"

section \<open>The consensus core (\<open>consensus/pbft/core/core.go\<close>)\<close>

subsection \<open>Data\<close>

text \<open>
  \<open>type State uint64\<close> with its five constants, in the order of the \<open>iota\<close>
  declaration.
\<close>

datatype State =
  StateAcceptRequest | StatePreprepared | StatePrepared | StateCommitted | StateCheckpointReady

text \<open>\<open>common.Address\<close> is 20 bytes, \<open>common.Hash\<close> is 32 bytes.\<close>

type_synonym Address = "160 word"
type_synonym Hash = "256 word"

text \<open>
  The message types belong to package \<open>pbft\<close>, whose source is not at hand; their
  fields are taken from the uses in \<open>core.go\<close> (\<open>nextSequence\<close>, \<open>makeProposal\<close>,
  \<open>commit\<close>) and from the test of \<open>handlePrepare\<close>. A \<open>*big.Int\<close> is an unbounded
  integer or \<open>nil\<close>; the test's \<open>Round\<close> is the \<open>ViewNumber\<close> here.
\<close>

record View =
  ViewNumber :: "int option"
  Sequence :: "int option"

record ProposalHeader =
  hSequence :: "int option"
  ParentHash :: Hash
  DataHash :: Hash

record Proposal =
  Header :: ProposalHeader
  Payload :: bytes

record Preprepare =
  ppView :: "View option"
  ppProposal :: "Proposal option"

record Subject =
  sView :: "View option"
  Digest :: Hash

record Message =
  Code :: "64 word"
  Msg :: bytes
  mAddress :: Address

text \<open>The message codes, in the order of the enumeration.\<close>

definition msgPreprepare :: "64 word" where "msgPreprepare = 0"
definition msgPrepare :: "64 word" where "msgPrepare = 1"
definition msgCommit :: "64 word" where "msgCommit = 2"

text \<open>Go \<open>error\<close> values: the named protocol rejections, and any other error by its text.\<close>

datatype error =
  errInconsistentSubject | errOldMessage | errFutureMessage | errUnauthorizedAddress
  | errNotFromProposer | errOther string

text \<open>
  The serialisation of package \<open>pbft\<close> is a collaborator: \<open>Encode(code, msg)\<close> and
  \<open>Message.ToPayload()\<close> on the sending side, \<open>FromPayload\<close> and the type-specific
  \<open>Decode\<close> on the receiving side. Each may fail. \<open>'a\<close> is the type of the value
  passed as \<open>msg interface{}\<close>.
\<close>

record 'a codec =
  Encode :: "64 word \<Rightarrow> 'a \<Rightarrow> error + Message"
  ToPayload :: "Message \<Rightarrow> error + bytes"
  FromPayload :: "bytes \<Rightarrow> error + Message"
  Decode :: "Message \<Rightarrow> error + 'a"

text \<open>
  Events on the backend's event mux: the two the core itself posts. \<open>event_type\<close> lists
  the kinds \<open>New\<close> subscribes to.
\<close>

datatype event = buildCheckpointEvent | backlogEvent Address Message

datatype event_type =
  RequestEvent | ConnectionEvent | MessageEvent | CheckpointEvent
  | backlogEvent_type | buildCheckpointEvent_type

text \<open>
  What the logger has written: the level, the \<open>state\<close> of the logger's context, the
  text, and the error or the view given with it.
\<close>

datatype log_record =
  Error_log State string error
  | Debug_log State string "View option"

text \<open>
  \<open>pbft.Backend\<close> is an interface. Its state as far as the core can observe or change
  it: the answers of \<open>Address()\<close>, \<open>Validators()\<close> and \<open>IsProposer()\<close>, the
  payloads given to \<open>Send\<close>, the proposals given to \<open>Commit\<close>, and the events given to
  \<open>EventMux().Post\<close>, each in call order. A posted event is delivered to the
  subscribers later; posting itself only enqueues.
\<close>

record Backend =
  bAddress :: Address
  bValidators :: "Address list"
  bIsProposer :: bool
  sentMsgs :: "bytes list"
  committed :: "Proposal option list"
  posted :: "event list"

definition Size :: "Address list \<Rightarrow> int" where
  "Size vs = int (length vs)"

definition Send :: "bytes \<Rightarrow> Backend \<Rightarrow> Backend" where
  "Send payload b = b\<lparr>sentMsgs := sentMsgs b @ [payload]\<rparr>"

definition Commit :: "Proposal option \<Rightarrow> Backend \<Rightarrow> Backend" where
  "Commit p b = b\<lparr>committed := committed b @ [p]\<rparr>"

definition Post :: "event \<Rightarrow> Backend \<Rightarrow> Backend" where
  "Post ev b = b\<lparr>posted := posted b @ [ev]\<rparr>"

text \<open>
  \<open>snapshot\<close>, the round state \<open>c.current\<close> points to. Its declaration is in
  another file of the package: \<open>ViewNumber\<close>, \<open>Sequence\<close> and \<open>Preprepare\<close> are
  the fields \<open>commit\<close> reads; the two vote sets, keyed by sender, are those of the
  specification's RoundState.
\<close>

record snapshot =
  snapViewNumber :: "int option"
  snapSequence :: "int option"
  snapPreprepare :: "Preprepare option"
  Prepares :: "(Address \<times> Subject) list"
  Commits :: "(Address \<times> Subject) list"

text \<open>
  \<open>type core struct\<close>. The two mutexes are left out: the core is a single sequential
  consumer of its events. \<open>logger\<close> holds the records written so far, \<open>backend\<close> the
  backend's observable state. A backlog queue holds messages with the view they are
  for, lowest view first. \<open>backlogRuns\<close> is not a field of the struct: it counts the
  calls of \<open>processBacklog\<close>.
\<close>

type_synonym backlog = "(View option \<times> Message) list"

record core =
  address :: Address
  N :: int
  F :: int
  state :: State
  logger :: "log_record list"
  backend :: Backend
  events :: "event_type list"
  sequence :: "int option"
  viewNumber :: "int option"
  completed :: bool
  subject :: "Subject option"
  backlogs :: "(Address \<times> backlog) list"
  current :: "snapshot option"
  snapshots :: "snapshot list"
  backlogRuns :: nat

subsection \<open>Construction\<close>

text \<open>
  \<open>func New(backend pbft.Backend) Engine\<close>. \<open>new(big.Int)\<close> is zero; the fields the
  literal does not mention have their zero values.
\<close>

definition New :: "Backend \<Rightarrow> core" where
  "New b =
     (let n = Size (bValidators b);
          f = int64_of_float64
                (float64_sub (math_Ceil (float64_div (float64_of_int64 n) 3)) 1)
      in \<lparr> address = bAddress b,
           N = n,
           F = f,
           state = StateAcceptRequest,
           logger = [],
           backend = b,
           events = [RequestEvent, ConnectionEvent, MessageEvent, CheckpointEvent,
                     backlogEvent_type, buildCheckpointEvent_type],
           sequence = Some 0,
           viewNumber = Some 0,
           completed = False,
           subject = None,
           backlogs = [],
           current = None,
           snapshots = [],
           backlogRuns = 0 \<rparr>)"

subsection \<open>Sending\<close>

text \<open>
  \<open>func (c *core) broadcast(code uint64, msg interface{})\<close>. The method has no result:
  its caller receives the empty tuple, which the model returns beside the core.
\<close>

definition broadcast :: "'a codec \<Rightarrow> 64 word \<Rightarrow> 'a \<Rightarrow> core \<Rightarrow> unit \<times> core" where
  "broadcast K code msg c =
     (case Encode K code msg of
        Inl err \<Rightarrow>
          ((), c\<lparr>logger := logger c @ [Error_log (state c) ''Failed to encode message'' err]\<rparr>)
      | Inr m \<Rightarrow>
          (case ToPayload K m of
             Inl err \<Rightarrow>
               ((), c\<lparr>logger := logger c @ [Error_log (state c) ''Failed to marshal message'' err]\<rparr>)
           | Inr payload \<Rightarrow> ((), c\<lparr>backend := Send payload (backend c)\<rparr>)))"

subsection \<open>The backlog\<close>

text \<open>
  Modelled from the spec: the order of views, whose source is not at hand. Views are
  compared by the sequence first, then by the view number. A view with a \<open>nil\<close>
  component is neither below nor above any other.
\<close>

definition view_less :: "View \<Rightarrow> View \<Rightarrow> bool" where
  "view_less v w =
     (case (Sequence v, ViewNumber v, Sequence w, ViewNumber w) of
        (Some s, Some n, Some s', Some n') \<Rightarrow> s < s' \<or> (s = s' \<and> n < n')
      | _ \<Rightarrow> False)"

definition view_below :: "View option \<Rightarrow> View option \<Rightarrow> bool" where
  "view_below v w = (case (v, w) of (Some x, Some y) \<Rightarrow> view_less x y | _ \<Rightarrow> False)"

text \<open>
  Modelled from the spec: the core's current view, which is the view the round state
  \<open>c.current\<close> is keyed by.
\<close>

definition currentView :: "core \<Rightarrow> View option" where
  "currentView c =
     (case current c of
        None \<Rightarrow> None
      | Some cur \<Rightarrow> Some \<lparr>ViewNumber = snapViewNumber cur, Sequence = snapSequence cur\<rparr>)"

text \<open>
  Modelled from the spec: \<open>checkMessage\<close>, whose source is not at hand. A message
  below the current view is old, one above it is a future message, and a Prepare or
  Commit vote at the current view is too early unless the state is Preprepared or
  Prepared.
\<close>

definition checkMessage :: "64 word \<Rightarrow> View option \<Rightarrow> core \<Rightarrow> error option" where
  "checkMessage code v c =
     (if view_below v (currentView c) then Some errOldMessage
      else if view_below (currentView c) v then Some errFutureMessage
      else if (code = msgPrepare \<or> code = msgCommit)
              \<and> state c \<noteq> StatePreprepared \<and> state c \<noteq> StatePrepared
           then Some errFutureMessage
      else None)"

text \<open>
  Modelled from the spec: the backlog's \<open>Push\<close> (\<open>storeBacklog\<close>), whose source is
  not at hand. The entry goes behind every queued entry that is not for a higher view,
  so equal views keep their arrival order.
\<close>

fun insert_entry :: "View option \<times> Message \<Rightarrow> backlog \<Rightarrow> backlog" where
  "insert_entry e [] = [e]"
| "insert_entry e (x # q) =
     (if view_below (fst e) (fst x) then e # x # q else x # insert_entry e q)"

fun push_backlog :: "Address \<Rightarrow> View option \<times> Message \<Rightarrow> (Address \<times> backlog) list
    \<Rightarrow> (Address \<times> backlog) list" where
  "push_backlog a e [] = [(a, [e])]"
| "push_backlog a e ((b, q) # rest) =
     (if a = b then (b, insert_entry e q) # rest else (b, q) # push_backlog a e rest)"

definition storeBacklog :: "Message \<Rightarrow> View option \<Rightarrow> Address \<Rightarrow> core \<Rightarrow> core" where
  "storeBacklog m v src c = c\<lparr>backlogs := push_backlog src (v, m) (backlogs c)\<rparr>"

text \<open>
  Modelled from the spec: \<open>processBacklog\<close>, whose source is not at hand. Each
  sender's queue is drained from its head until it is empty or its head is a future
  message: a stale entry is discarded, an admissible one is taken out and handed back to
  the core as a \<open>backlogEvent\<close> on the event mux, the kind \<open>New\<close> subscribes to.
  \<open>drain\<close> returns what stays queued and what is replayed.
\<close>

fun drain :: "core \<Rightarrow> backlog \<Rightarrow> backlog \<times> Message list" where
  "drain c [] = ([], [])"
| "drain c ((v, m) # q) =
     (case checkMessage (Code m) v c of
        None \<Rightarrow> (case drain c q of (q', ms) \<Rightarrow> (q', m # ms))
      | Some err \<Rightarrow> (if err = errFutureMessage then ((v, m) # q, []) else drain c q))"

definition processBacklog :: "core \<Rightarrow> core" where
  "processBacklog c =
     c\<lparr> backlogs := map (\<lambda>(a, q). (a, fst (drain c q))) (backlogs c),
        backend := (backend c)\<lparr>posted := posted (backend c)
                     @ concat (map (\<lambda>(a, q). map (backlogEvent a) (snd (drain c q))) (backlogs c))\<rparr>,
        backlogRuns := Suc (backlogRuns c) \<rparr>"

subsection \<open>State changes and commit\<close>

text \<open>\<open>func (c *core) setState(state State)\<close>\<close>

definition setState :: "State \<Rightarrow> core \<Rightarrow> core" where
  "setState st c = (if state c \<noteq> st then processBacklog (c\<lparr>state := st\<rparr>) else c)"

text \<open>
  \<open>func (c *core) commit()\<close>. \<open>None\<close> is the panic of a \<open>nil\<close> dereference:
  \<open>c.current\<close> or its \<open>Preprepare\<close> is \<open>nil\<close> where the log line reads
  \<open>c.current.Preprepare.View\<close>, or the sequence taken over from the round is \<open>nil\<close>
  where \<open>Mod\<close> reads it. \<open>big.Int.Mod\<close> is the Euclidean modulus, which for the
  modulus 100 is \<open>mod\<close>. The \<open>go\<close> statement hands the post to another goroutine and
  continues at once.
\<close>

definition commit :: "core \<Rightarrow> core option" where
  "commit c =
     (let c1 = setState StateCommitted c in
      case current c1 of
        None \<Rightarrow> None
      | Some cur \<Rightarrow>
          (case snapPreprepare cur of
             None \<Rightarrow> None
           | Some pp \<Rightarrow>
               (let c2 = c1\<lparr>logger := logger c1 @ [Debug_log (state c1) ''Ready to commit'' (ppView pp)]\<rparr>;
                    c3 = c2\<lparr>backend := Commit (ppProposal pp) (backend c2)\<rparr>;
                    c4 = c3\<lparr>snapshots := snapshots c3 @ [cur]\<rparr>;
                    c5 = c4\<lparr>viewNumber := snapViewNumber cur\<rparr>;
                    c6 = c5\<lparr>sequence := snapSequence cur\<rparr>;
                    c7 = c6\<lparr>completed := True\<rparr>;
                    c8 = setState StateAcceptRequest c7
                in case sequence c8 of
                     None \<Rightarrow> None
                   | Some s \<Rightarrow>
                       Some (if s mod 100 = 0
                             then c8\<lparr>backend := Post buildCheckpointEvent (backend c8)\<rparr>
                             else c8))))"

text \<open>
  The run of \<open>commit\<close> statement by statement: the cores after
  \<open>setState(StateCommitted)\<close>, after the log line, after \<open>Backend.Commit\<close>, after the
  append to \<open>snapshots\<close>, after the assignments to \<open>viewNumber\<close>, to \<open>sequence\<close> and
  to \<open>completed\<close>, after \<open>setState(StateAcceptRequest)\<close> and after the conditional
  post, in the order of the source. \<open>None\<close> is the panic, as in \<open>commit\<close>.
\<close>

definition commit_trace :: "core \<Rightarrow> core list option" where
  "commit_trace c =
     (let c1 = setState StateCommitted c in
      case current c1 of
        None \<Rightarrow> None
      | Some cur \<Rightarrow>
          (case snapPreprepare cur of
             None \<Rightarrow> None
           | Some pp \<Rightarrow>
               (let c2 = c1\<lparr>logger := logger c1 @ [Debug_log (state c1) ''Ready to commit'' (ppView pp)]\<rparr>;
                    c3 = c2\<lparr>backend := Commit (ppProposal pp) (backend c2)\<rparr>;
                    c4 = c3\<lparr>snapshots := snapshots c3 @ [cur]\<rparr>;
                    c5 = c4\<lparr>viewNumber := snapViewNumber cur\<rparr>;
                    c6 = c5\<lparr>sequence := snapSequence cur\<rparr>;
                    c7 = c6\<lparr>completed := True\<rparr>;
                    c8 = setState StateAcceptRequest c7
                in case sequence c8 of
                     None \<Rightarrow> None
                   | Some s \<Rightarrow>
                       Some [c1, c2, c3, c4, c5, c6, c7, c8,
                             if s mod 100 = 0
                             then c8\<lparr>backend := Post buildCheckpointEvent (backend c8)\<rparr>
                             else c8])))"

section \<open>Handling Prepare votes\<close>

text \<open>
  \<open>handlePrepare\<close> and \<open>verifyPrepare\<close> are exercised by \<open>prepare_test.go\<close>, but
  their source is not at hand. They are modelled from the specification, on the core
  and round state above. Where the specification leaves the order of the checks open, the
  expectations of the test decide: a vote for another view is reported as old or future
  before its subject is compared.
\<close>

text \<open>
  Modelled from the spec: \<open>Subject()\<close> of a round state, whose source is not at
  hand. It is derived from the accepted Preprepare: its view and the digest of its
  proposal. A round without an accepted Preprepare has no subject.
\<close>

definition roundSubject :: "snapshot \<Rightarrow> Subject option" where
  "roundSubject cur =
     (case snapPreprepare cur of
        None \<Rightarrow> None
      | Some pp \<Rightarrow>
          (case ppProposal pp of
             None \<Rightarrow> None
           | Some p \<Rightarrow> Some \<lparr>sView = ppView pp, Digest = DataHash (Header p)\<rparr>))"

definition currentSubject :: "core \<Rightarrow> Subject option" where
  "currentSubject c = (case current c of None \<Rightarrow> None | Some cur \<Rightarrow> roundSubject cur)"

text \<open>
  Modelled from the spec: \<open>verifyPrepare\<close>, whose source is not at hand. The vote's
  subject must equal the current subject exactly, view and digest; any mismatch is
  \<open>errInconsistentSubject\<close>.
\<close>

definition verifyPrepare :: "Subject \<Rightarrow> Address \<Rightarrow> core \<Rightarrow> error option" where
  "verifyPrepare prepare src c =
     (if currentSubject c = Some prepare then None else Some errInconsistentSubject)"

text \<open>
  Modelled from the spec: \<open>AddPrepare\<close> of the round state, whose source is not at
  hand. A vote is admitted only if its view is the round's own view; it is stored under
  its sender, replacing an earlier vote of the same sender.
\<close>

definition addVote :: "Address \<Rightarrow> Subject \<Rightarrow> (Address \<times> Subject) list \<Rightarrow> (Address \<times> Subject) list" where
  "addVote a s vs =
     (if a \<in> fst ` set vs then map (\<lambda>(b, t). if b = a then (b, s) else (b, t)) vs
      else vs @ [(a, s)])"

definition AddPrepare :: "Subject \<Rightarrow> Address \<Rightarrow> snapshot \<Rightarrow> snapshot" where
  "AddPrepare s a cur =
     (if sView s = Some \<lparr>ViewNumber = snapViewNumber cur, Sequence = snapSequence cur\<rparr>
      then cur\<lparr>Prepares := addVote a s (Prepares cur)\<rparr>
      else cur)"

text \<open>
  Modelled from the spec: the quorum \<open>2F+1\<close> and \<open>PreparedQuorumReached\<close>, whose source is not at hand.
\<close>

definition Quorum :: "core \<Rightarrow> int" where
  "Quorum c = 2 * F c + 1"

definition PreparedQuorumReached :: "core \<Rightarrow> bool" where
  "PreparedQuorumReached c =
     (case current c of None \<Rightarrow> False | Some cur \<Rightarrow> Quorum c \<le> int (length (Prepares cur)))"

text \<open>
  Modelled from the spec: \<open>handlePrepare\<close>, whose source is not at hand. It returns
  the error (\<open>None\<close> for \<open>nil\<close>) and the core afterwards. A payload that does not
  decode is rejected with the decoder's error. An old vote is dropped, a future one is
  queued in the sender's backlog. A vote at the current view must carry the current
  subject and come from a member of the validator set; it is then added to the round's
  Prepare votes. When that addition makes the quorum reached and the state is still
  Preprepared, the core broadcasts its Commit vote for the subject and changes to
  Prepared.
\<close>

definition handlePrepare :: "Subject codec \<Rightarrow> Message \<Rightarrow> Address \<Rightarrow> core \<Rightarrow> error option \<times> core" where
  "handlePrepare K msg src c =
     (case Decode K msg of
        Inl err \<Rightarrow> (Some err, c)
      | Inr prepare \<Rightarrow>
          (case checkMessage msgPrepare (sView prepare) c of
             Some err \<Rightarrow>
               (Some err,
                if err = errFutureMessage then storeBacklog msg (sView prepare) src c else c)
           | None \<Rightarrow>
               (case verifyPrepare prepare src c of
                  Some err \<Rightarrow> (Some err, c)
                | None \<Rightarrow>
                    if src \<notin> set (bValidators (backend c)) then (Some errUnauthorizedAddress, c)
                    else
                      (let c1 = c\<lparr>current := map_option (AddPrepare prepare src) (current c)\<rparr>
                       in if \<not> PreparedQuorumReached c \<and> PreparedQuorumReached c1
                             \<and> state c1 = StatePreprepared
                          then (None, setState StatePrepared
                                        (snd (broadcast K msgCommit prepare c1)))
                          else (None, c1)))))"

text \<open>
  The loop of \<open>TestHandlePrepare\<close>: the votes are handled in order, and the first error
  ends the run.
\<close>

fun deliver :: "Subject codec \<Rightarrow> (Message \<times> Address) list \<Rightarrow> core \<Rightarrow> error option \<times> core" where
  "deliver K [] c = (None, c)"
| "deliver K ((m, a) # rest) c =
     (case handlePrepare K m a c of
        (Some err, c') \<Rightarrow> (Some err, c')
      | (None, c') \<Rightarrow> deliver K rest c')"

section \<open>Concrete inputs\<close>

text \<open>A backend with four validators and nothing sent, committed or posted yet.\<close>

definition backend4 :: Backend where
  "backend4 = \<lparr> bAddress = 1, bValidators = [1, 2, 3, 4], bIsProposer = True,
                 sentMsgs = [], committed = [], posted = [] \<rparr>"

text \<open>
  A core in state Prepared whose round, for view number 0 and the given sequence, has
  an accepted Preprepare.
\<close>

definition proposal0 :: Proposal where
  "proposal0 = \<lparr> Header = \<lparr>hSequence = Some 1, ParentHash = 7, DataHash = 7\<rparr>,
                  Payload = ''block'' \<rparr>"

definition round_at :: "int \<Rightarrow> snapshot" where
  "round_at s =
     \<lparr> snapViewNumber = Some 0, snapSequence = Some s,
       snapPreprepare = Some \<lparr> ppView = Some \<lparr>ViewNumber = Some 0, Sequence = Some s\<rparr>,
                               ppProposal = Some proposal0 \<rparr>,
       Prepares = [], Commits = [] \<rparr>"

definition core_at :: "int \<Rightarrow> core" where
  "core_at s = (New backend4)\<lparr>state := StatePrepared, current := Some (round_at s)\<rparr>"

text \<open>The same core in state Preprepared, as replica 0 of the test.\<close>

definition core_preprepared :: "int \<Rightarrow> core" where
  "core_preprepared s = (core_at s)\<lparr>state := StatePreprepared\<rparr>"

text \<open>A backend whose validator set has \<open>2^53 + 5\<close> members.\<close>

definition backend_huge :: Backend where
  "backend_huge = backend4\<lparr>bValidators := map of_nat [0 ..< 9007199254740997]\<rparr>"

text \<open>
  A codec for subjects on concrete inputs: the message body spells the view number, the
  sequence and the digest in unary, the payload puts the code in unary before it.
  Subjects with a \<open>nil\<close> or negative component do not encode.
\<close>

definition toy_codec :: "Subject codec" where
  "toy_codec =
     \<lparr> Encode = (\<lambda>code s.
          case sView s of
            None \<Rightarrow> Inl (errOther ''nil view'')
          | Some v \<Rightarrow>
              (case (ViewNumber v, Sequence v) of
                 (Some n, Some q) \<Rightarrow>
                   if 0 \<le> n \<and> 0 \<le> q
                   then Inr \<lparr> Code = code,
                              Msg = replicate (nat n) CHR ''v'' @ replicate (nat q) CHR ''s''
                                    @ replicate (unat (Digest s)) CHR ''d'',
                              mAddress = 0 \<rparr>
                   else Inl (errOther ''negative number'')
               | _ \<Rightarrow> Inl (errOther ''nil number''))),
       ToPayload = (\<lambda>m. Inr (replicate (unat (Code m)) CHR ''c'' @ Msg m)),
       FromPayload = (\<lambda>p. Inr \<lparr> Code = of_nat (count_list p CHR ''c''),
                                 Msg = filter (\<lambda>x. x \<noteq> CHR ''c'') p,
                                 mAddress = 0 \<rparr>),
       Decode = (\<lambda>m. Inr \<lparr> sView = Some \<lparr> ViewNumber = Some (int (count_list (Msg m) CHR ''v'')),
                                           Sequence = Some (int (count_list (Msg m) CHR ''s'')) \<rparr>,
                            Digest = of_nat (count_list (Msg m) CHR ''d'') \<rparr>) \<rparr>"

text \<open>The same codec with a transport encoding that always fails.\<close>

definition unmarshalable_codec :: "Subject codec" where
  "unmarshalable_codec = toy_codec\<lparr>ToPayload := (\<lambda>m. Inl (errOther ''too large''))\<rparr>"

text \<open>The subject of \<open>round_at s\<close>, and a Prepare vote for it from a given sender.\<close>

definition subject_at :: "int \<Rightarrow> Subject" where
  "subject_at s = \<lparr>sView = Some \<lparr>ViewNumber = Some 0, Sequence = Some s\<rparr>, Digest = 7\<rparr>"

definition vote_at :: "int \<Rightarrow> Address \<Rightarrow> Message" where
  "vote_at s a = \<lparr> Code = msgPrepare,
                   Msg = replicate (nat s) CHR ''s'' @ ''ddddddd'',
                   mAddress = a \<rparr>"

text \<open>A subject without a sequence, as in the test's malicious vote.\<close>

definition subject_nil :: Subject where
  "subject_nil = \<lparr>sView = Some \<lparr>ViewNumber = Some 0, Sequence = None\<rparr>, Digest = 7\<rparr>"


section \<open>Properties of \<open>ethDB\<close>\<close>

lemma getKey_eq: "getKey k = ''pbft_'' @ k"
  by (simp add: getKey_def prefixKey_def)

lemma append_bytes_none: "append_bytes s [] = s"
  by (simp add: append_bytes_def)

text \<open>
  C9. \<open>Save\<close> returns the error of \<open>json.Marshal\<close> if there is one and otherwise exactly
  what the database's \<open>Put\<close> returns, so it returns \<open>nil\<close> only when both succeed.
  \<open>Restore\<close> returns the error of the database's \<open>Get\<close> if there is one, otherwise
  exactly what \<open>json.Unmarshal\<close> returns, and \<open>nil\<close> only when both succeed.
  No error is dropped or replaced.
\<close>

theorem Save_Restore_errors:
  "fst (Save d j key val db) =
     (case Marshal j val of
        Inl err \<Rightarrow> Some err
      | Inr blob \<Rightarrow> fst (Put d (getKey key) blob db))
   \<and> (fst (Save d j key val db) = None
        \<longleftrightarrow> (\<exists>blob. Marshal j val = Inr blob \<and> fst (Put d (getKey key) blob db) = None))
   \<and> fst (Restore d j key val db) =
     (case Get d (getKey key) db of
        Inl err \<Rightarrow> Some err
      | Inr blob \<Rightarrow> fst (Unmarshal j blob val))
   \<and> (fst (Restore d j key val db) = None
        \<longleftrightarrow> (\<exists>blob. Get d (getKey key) db = Inr blob \<and> fst (Unmarshal j blob val) = None))"
  by (auto simp: Save_def Restore_def append_bytes_none split: sum.splits option.splits prod.splits)

theorem Save_Restore_errors_witness:
  "fst (Save mem_db failing_json ''k'' 3 []) = Some Unsupported
   \<and> fst (Save mem_db unary_json ''k'' 3 []) = None
   \<and> fst (Restore mem_db unary_json ''k'' 0 []) = Some NotFound
   \<and> fst (Restore mem_db unary_json ''k'' 0 [(''pbft_k'', ''12'')]) = Some BadJSON
   \<and> fst (Restore mem_db unary_json ''k'' 0 [(''pbft_k'', ''11'')]) = None"
  using Save_Restore_errors [of mem_db failing_json "''k''" 3 "[]"]
    Save_Restore_errors [of mem_db unary_json "''k''" 3 "[]"]
    Save_Restore_errors [of mem_db unary_json "''k''" 0 "[]"]
    Save_Restore_errors [of mem_db unary_json "''k''" 0 "[(''pbft_k'', ''12'')]"]
    Save_Restore_errors [of mem_db unary_json "''k''" 0 "[(''pbft_k'', ''11'')]"]
  by (simp add: mem_db_def failing_json_def unary_json_def getKey_eq)

lemma Restore_is_Unmarshal:
  "Get d (getKey k) db = Inr blob \<Longrightarrow> Restore d j k v0 db = Unmarshal j blob v0"
  by (simp add: Restore_def split: prod.splits option.splits)

text \<open>
  C10, as amended. \<open>Save\<close> and \<open>Restore\<close> address the database by the same key,
  \<open>pbft_\<close> followed by the caller's key. On a store that returns from \<open>Get\<close> what a
  successful \<open>Put\<close> stored under that key, a \<open>Restore\<close> after a successful \<open>Save\<close> of
  \<open>v\<close> under the same key reads the blob \<open>json.Marshal\<close> produced for \<open>v\<close> and returns
  exactly what \<open>json.Unmarshal\<close> makes of that blob in the given target; it yields
  \<open>v\<close> whenever \<open>json.Unmarshal\<close> recovers \<open>v\<close> from the blob.
\<close>

theorem Restore_after_Save:
  assumes "Save d j k v db = (None, db')"
    and "\<And>key blob s s'. Put d key blob s = (None, s') \<Longrightarrow> Get d key s' = Inr blob"
  shows "\<exists>blob. Marshal j v = Inr blob
           \<and> Put d (''pbft_'' @ k) blob db = (None, db')
           \<and> Get d (''pbft_'' @ k) db' = Inr blob
           \<and> Restore d j k v0 db' = Unmarshal j blob v0
           \<and> (Unmarshal j blob v0 = (None, v) \<longrightarrow> Restore d j k v0 db' = (None, v))"
proof (cases "Marshal j v")
  case (Inl err)
  with assms(1) show ?thesis by (simp add: Save_def)
next
  case (Inr blob)
  with assms(1) have put: "Put d (''pbft_'' @ k) blob db = (None, db')"
    by (simp add: Save_def append_bytes_none getKey_eq)
  then have get: "Get d (''pbft_'' @ k) db' = Inr blob" by (rule assms(2))
  then have "Restore d j k v0 db' = Unmarshal j blob v0"
    by (intro Restore_is_Unmarshal) (simp add: getKey_eq)
  with Inr put get show ?thesis by simp
qed

theorem Restore_after_Save_witness:
  "Save mem_db unary_json ''snap'' 3 [] = (None, [(''pbft_snap'', ''111'')])
   \<and> Restore mem_db unary_json ''snap'' 0 [(''pbft_snap'', ''111'')] = (None, 3)"
proof -
  have s: "Save mem_db unary_json ''snap'' 3 [] = (None, [(''pbft_snap'', ''111'')])"
    by (simp add: Save_def mem_db_def unary_json_def getKey_eq append_bytes_none
        numeral_3_eq_3)
  have "\<exists>blob. Marshal unary_json 3 = Inr blob
           \<and> Put mem_db (''pbft_'' @ ''snap'') blob [] = (None, [(''pbft_snap'', ''111'')])
           \<and> Get mem_db (''pbft_'' @ ''snap'') [(''pbft_snap'', ''111'')] = Inr blob
           \<and> Restore mem_db unary_json ''snap'' 0 [(''pbft_snap'', ''111'')]
               = Unmarshal unary_json blob 0
           \<and> (Unmarshal unary_json blob 0 = (None, 3) \<longrightarrow>
                Restore mem_db unary_json ''snap'' 0 [(''pbft_snap'', ''111'')] = (None, 3))"
  proof (rule Restore_after_Save)
    show "Save mem_db unary_json ''snap'' 3 [] = (None, [(''pbft_snap'', ''111'')])"
      by (fact s)
    show "\<And>key blob s s'. Put mem_db key blob s = (None, s') \<Longrightarrow> Get mem_db key s' = Inr blob"
      by (auto simp: mem_db_def)
  qed
  then obtain blob where b: "Marshal unary_json 3 = Inr blob"
    and r: "Unmarshal unary_json blob 0 = (None, 3) \<longrightarrow>
              Restore mem_db unary_json ''snap'' 0 [(''pbft_snap'', ''111'')] = (None, 3)"
    by blast
  from b have "Unmarshal unary_json blob 0 = (None, 3)"
    by (auto simp: unary_json_def)
  with r s show ?thesis by simp
qed

lemma pair_json_run:
  "Save mem_db pair_json ''k'' \<lparr>Exported = 1, unexported = 2\<rparr> []
     = (None, [(''pbft_k'', member_prefix @ ''1}'')])"
  "Restore mem_db pair_json ''k'' \<lparr>Exported = 0, unexported = 0\<rparr>
     [(''pbft_k'', member_prefix @ ''1}'')] = (None, \<lparr>Exported = 1, unexported = 0\<rparr>)"
  by code_simp+

text \<open>
  C10 as stated fails for a value that \<open>json.Marshal\<close> accepts but does not write in
  full: a struct with an unexported field is saved without error, and the \<open>Restore\<close>
  that follows, into a zero value of the type, succeeds with another value than the one
  saved.
\<close>

theorem Restore_after_Save_counterexample:
  "fst (Save mem_db pair_json ''k'' \<lparr>Exported = 1, unexported = 2\<rparr> []) = None
   \<and> Restore mem_db pair_json ''k'' \<lparr>Exported = 0, unexported = 0\<rparr>
        (snd (Save mem_db pair_json ''k'' \<lparr>Exported = 1, unexported = 2\<rparr> []))
      = (None, \<lparr>Exported = 1, unexported = 0\<rparr>)
   \<and> \<lparr>Exported = 1, unexported = 0\<rparr> \<noteq> \<lparr>Exported = 1, unexported = 2\<rparr>"
  by (simp add: pair_json_run)

section \<open>Properties of the double-precision operations\<close>

lemma round_half_even_of_int: "round_half_even (of_int k) = k"
  by (simp add: round_half_even_def)

lemma round_half_even_near: "\<bar>of_int (round_half_even y) - y\<bar> \<le> 1 / 2"
proof -
  have a: "of_int \<lfloor>y\<rfloor> \<le> y" and b: "y < of_int \<lfloor>y\<rfloor> + 1"
    by linarith+
  show ?thesis
    using a b by (auto simp: round_half_even_def Let_def abs_le_iff)
qed

lemma float_exponent_le:
  assumes "0 < x"
  shows "2 powi (float_exponent x) \<le> x"
proof (cases "1 \<le> x")
  case True
  define m where "m = \<lfloor>x\<rfloor>"
  have m: "0 < m" using True by (simp add: m_def)
  have "2 ^ nat (bitlen m - 1) \<le> m" using bitlen_bounds [OF m] by simp
  then have "(of_int (2 ^ nat (bitlen m - 1)) :: rat) \<le> of_int m"
    by (simp only: of_int_le_iff)
  then have "(2::rat) ^ nat (bitlen m - 1) \<le> of_int m"
    by (simp only: of_int_power of_int_numeral)
  moreover have "of_int m \<le> x" by (simp add: m_def)
  ultimately have "(2::rat) ^ nat (bitlen m - 1) \<le> x"
    by (rule order_trans)
  moreover have "1 \<le> bitlen m" using m by (simp add: bitlen_alt_def)
  ultimately show ?thesis
    using True by (simp add: float_exponent_def m_def [symmetric] power_int_def)
next
  case False
  define c where "c = \<lceil>1 / x\<rceil>"
  define j where "j = bitlen (c - 1)"
  have x1: "1 < 1 / x" using False assms by simp
  then have c: "0 < c - 1" unfolding c_def by linarith
  have "c - 1 < 2 ^ nat j" using bitlen_bounds [OF c] by (simp add: j_def)
  then have "c \<le> 2 ^ nat j" by simp
  then have "(of_int c :: rat) \<le> of_int (2 ^ nat j)" by (simp only: of_int_le_iff)
  then have "(of_int c :: rat) \<le> 2 ^ nat j"
    by (simp only: of_int_power of_int_numeral)
  moreover have "1 / x \<le> of_int c" by (simp add: c_def)
  ultimately have "1 / x \<le> 2 ^ nat j" by (rule order_trans [rotated])
  then have "1 / 2 ^ nat j \<le> x"
    using assms by (simp add: field_simps)
  moreover have "0 \<le> j" by (simp add: j_def bitlen_nonneg)
  ultimately show ?thesis
    using False by (auto simp add: float_exponent_def c_def [symmetric] j_def [symmetric]
        power_int_def field_simps)
qed

lemma float_exponent_less:
  assumes "0 < x" and "x < 2 ^ k"
  shows "float_exponent x < int k"
proof (rule ccontr)
  assume "\<not> float_exponent x < int k"
  then have "int k \<le> float_exponent x" by simp
  then have "(2::rat) powi int k \<le> 2 powi float_exponent x"
    by (intro power_int_increasing) simp_all
  with float_exponent_le [OF assms(1)] assms(2) show False by simp
qed


lemma powi_neg: "(2::rat) powi (- int m) = 1 / 2 ^ m"
  by (simp add: power_int_minus inverse_eq_divide)

lemma float64_round_of_int:
  assumes "0 \<le> n" and "n < 2 ^ 53"
  shows "float64_round (of_int n) = of_int n"
proof (cases "n = 0")
  case True
  then show ?thesis by (simp add: float64_round_def)
next
  case False
  define x :: rat where "x = of_int n"
  define k where "k = nat (52 - float_exponent x)"
  have pos: "0 < x" using False assms(1) by (simp add: x_def)
  have "x < 2 ^ 53"
  proof -
    have "(of_int n :: rat) < of_int (2 ^ 53)" using assms(2) by (simp only: of_int_less_iff)
    then show ?thesis by (simp add: x_def)
  qed
  then have "float_exponent x < int 53" using pos by (intro float_exponent_less)
  then have e: "float_exponent x - 52 = - int k" by (simp add: k_def)
  have u: "(2::rat) powi (float_exponent x - 52) = 1 / 2 ^ k"
    unfolding e by (rule powi_neg)
  have "x / (1 / 2 ^ k) = of_int (n * 2 ^ k)" by (simp add: x_def)
  then have "round_half_even (x / (1 / 2 ^ k)) = n * 2 ^ k"
    by (simp only: round_half_even_of_int)
  then have "float64_round x = of_int (n * 2 ^ k) * (1 / 2 ^ k)"
    using pos by (simp add: float64_round_def Let_def u)
  also have "\<dots> = x" by (simp add: x_def)
  finally show ?thesis by (simp add: x_def)
qed

lemma float64_round_near:
  assumes "0 < x" and "x < 2 ^ 52"
  shows "\<bar>float64_round x - x\<bar> \<le> 1 / 4"
proof -
  define k where "k = nat (51 - float_exponent x)"
  define u :: rat where "u = 1 / 2 ^ Suc k"
  have "float_exponent x < int 52" using assms by (intro float_exponent_less)
  then have e: "float_exponent x - 52 = - int (Suc k)" by (simp add: k_def)
  have u: "(2::rat) powi (float_exponent x - 52) = u"
    unfolding e u_def by (rule powi_neg)
  have u0: "0 < u" by (simp add: u_def)
  have "(2::rat) ^ 1 \<le> 2 ^ Suc k" by (rule power_increasing) simp_all
  then have u2: "u \<le> 1 / 2" by (simp add: u_def field_simps)
  define r where "r = round_half_even (x / u)"
  have R: "float64_round x = of_int r * u"
    using assms(1) by (simp add: float64_round_def Let_def u r_def)
  have "\<bar>of_int r - x / u\<bar> \<le> 1 / 2" unfolding r_def by (rule round_half_even_near)
  then have "\<bar>of_int r - x / u\<bar> * u \<le> 1 / 2 * u"
    using u0 by (simp only: mult_le_cancel_right_pos)
  moreover have "\<bar>of_int r - x / u\<bar> * u = \<bar>of_int r * u - x\<bar>"
  proof -
    have "\<bar>of_int r - x / u\<bar> * u = \<bar>(of_int r - x / u) * u\<bar>"
      using u0 by (simp add: abs_mult)
    also have "(of_int r - x / u) * u = of_int r * u - x"
      using u0 by (simp add: field_simps)
    finally show ?thesis .
  qed
  ultimately have "\<bar>of_int r * u - x\<bar> \<le> 1 / 2 * u" by simp
  also have "\<dots> \<le> 1 / 4" using u2 by simp
  finally show ?thesis by (simp add: R)
qed

lemma ceil_float64_div3:
  assumes "1 \<le> n" and "n < 2 ^ 53"
  shows "\<lceil>float64_div (of_int n) 3\<rceil> = \<lceil>(of_int n :: rat) / 3\<rceil>"
proof (cases "n mod 3 = 0")
  case True
  then obtain k where k: "n = 3 * k" by (auto simp: mod_eq_0_iff_dvd)
  have "0 \<le> k" "k < 2 ^ 53" using assms k by simp_all
  then have "float64_round (of_int k) = of_int k" by (rule float64_round_of_int)
  moreover have "(of_int n :: rat) / 3 = of_int k" by (simp add: k)
  ultimately show ?thesis by (simp add: float64_div_def)
next
  case False
  define k where "k = n div 3"
  define x :: rat where "x = of_int n / 3"
  have n: "n = 3 * k + n mod 3" by (simp add: k_def)
  have r: "n mod 3 = 1 \<or> n mod 3 = 2" using False by presburger
  have lo: "of_int k + 1 / 3 \<le> x" and hi: "x \<le> of_int k + 2 / 3"
  proof -
    have "x = of_int k + of_int (n mod 3) / 3"
      unfolding x_def by (subst n) (simp add: field_simps)
    then show "of_int k + 1 / 3 \<le> x" and "x \<le> of_int k + 2 / 3"
      using r by auto
  qed
  have pos: "0 < x" using assms(1) by (simp add: x_def)
  have "x < 2 ^ 52"
  proof -
    have "(of_int n :: rat) < of_int (2 ^ 53)" using assms(2) by (simp only: of_int_less_iff)
    then show ?thesis by (simp add: x_def)
  qed
  with pos have "\<bar>float64_round x - x\<bar> \<le> 1 / 4" by (rule float64_round_near)
  then have "x - 1 / 4 \<le> float64_round x" and "float64_round x \<le> x + 1 / 4"
    by (auto simp only: abs_le_iff)
  then have a: "of_int k < float64_round x" and b: "float64_round x \<le> of_int (k + 1)"
    using lo hi by auto
  have "\<lceil>float64_round x\<rceil> = k + 1"
    using a b by (intro ceiling_unique) simp_all
  moreover have "\<lceil>x\<rceil> = k + 1"
    using lo hi by (intro ceiling_unique) simp_all
  ultimately show ?thesis by (simp add: float64_div_def x_def)
qed

lemma float64_faults_exact:
  assumes "1 \<le> n" and "n < 2 ^ 53"
  shows "int64_of_float64 (float64_sub (math_Ceil (float64_div (float64_of_int64 n) 3)) 1)
         = \<lceil>(of_int n :: rat) / 3\<rceil> - 1"
proof -
  define c where "c = \<lceil>(of_int n :: rat) / 3\<rceil>"
  have n: "float64_of_int64 n = of_int n"
    using assms by (simp add: float64_of_int64_def float64_round_of_int)
  have c: "math_Ceil (float64_div (of_int n) 3) = of_int c"
    using assms by (simp add: math_Ceil_def ceil_float64_div3 c_def)
  have c1: "1 \<le> c" unfolding c_def using assms(1) by (simp add: le_ceiling_iff)
  have c2: "c \<le> n" unfolding c_def using assms(1) by (simp add: ceiling_le_iff)
  have "float64_round (of_int (c - 1)) = of_int (c - 1)"
    using c1 c2 assms(2) by (intro float64_round_of_int) simp_all
  then have s: "float64_sub (of_int c) 1 = of_int (c - 1)"
    by (simp add: float64_sub_def)
  have "int64_of_float64 (of_int (c - 1)) = c - 1"
    using c1 c2 assms(2) by (simp add: int64_of_float64_def Let_def)
  then show ?thesis
    unfolding n c s c_def [symmetric] .
qed

lemma float64_faults_4:
  "int64_of_float64 (float64_sub (math_Ceil (float64_div (float64_of_int64 4) 3)) 1) = 1"
  by code_simp

lemma float64_faults_huge:
  "int64_of_float64
     (float64_sub (math_Ceil (float64_div (float64_of_int64 9007199254740997) 3)) 1)
   = 3002399751580331"
  by code_simp

lemma ceiling_third: "\<lceil>(of_int n :: rat) / 3\<rceil> = (n + 2) div 3"
proof -
  have "\<lceil>(of_int n :: rat) / of_int 3\<rceil> = - (- n div 3)"
    by (rule ceiling_divide_eq_div)
  also have "\<dots> = (n + 2) div 3" by presburger
  finally show ?thesis by simp
qed

section \<open>Properties of the core\<close>

lemma processBacklog_frame:
  "state (processBacklog c) = state c"
  "current (processBacklog c) = current c"
  "snapshots (processBacklog c) = snapshots c"
  "sequence (processBacklog c) = sequence c"
  "viewNumber (processBacklog c) = viewNumber c"
  "completed (processBacklog c) = completed c"
  "logger (processBacklog c) = logger c"
  "N (processBacklog c) = N c"
  "F (processBacklog c) = F c"
  "sentMsgs (backend (processBacklog c)) = sentMsgs (backend c)"
  "committed (backend (processBacklog c)) = committed (backend c)"
  "bValidators (backend (processBacklog c)) = bValidators (backend c)"
  "backlogRuns (processBacklog c) = Suc (backlogRuns c)"
  by (simp_all add: processBacklog_def)

text \<open>
  C7. A call of \<open>setState\<close> with a value other than the current state stores the value
  and runs the backlog replay once, on the core with the new state; a call with the
  current state changes nothing and runs no replay.
\<close>

theorem setState_replay:
  "(state c \<noteq> st \<longrightarrow>
      setState st c = processBacklog (c\<lparr>state := st\<rparr>)
      \<and> state (setState st c) = st
      \<and> backlogRuns (setState st c) = Suc (backlogRuns c))
   \<and> (state c = st \<longrightarrow> setState st c = c \<and> backlogRuns (setState st c) = backlogRuns c)"
  by (simp add: setState_def processBacklog_frame)

theorem setState_replay_witness:
  "state (New backend4) \<noteq> StatePreprepared
   \<and> state (setState StatePreprepared (New backend4)) = StatePreprepared
   \<and> backlogRuns (setState StatePreprepared (New backend4)) = 1
   \<and> state (New backend4) = StateAcceptRequest
   \<and> setState StateAcceptRequest (New backend4) = New backend4"
proof -
  have a: "state (New backend4) = StateAcceptRequest" and b: "backlogRuns (New backend4) = 0"
    by (simp_all add: New_def Let_def)
  have ne: "state (New backend4) \<noteq> StatePreprepared" using a by simp
  note r = setState_replay [of "New backend4" StatePreprepared, THEN conjunct1, rule_format, OF ne]
  from r [THEN conjunct2] b
  have "state (setState StatePreprepared (New backend4)) = StatePreprepared
        \<and> backlogRuns (setState StatePreprepared (New backend4)) = 1"
    by simp
  moreover from a setState_replay [of "New backend4" StateAcceptRequest]
  have "setState StateAcceptRequest (New backend4) = New backend4"
    by simp
  ultimately show ?thesis using a by simp
qed


text \<open>
  C6, as amended. For every backend whose validator set has between 1 and \<open>2^53 - 1\<close>
  members, \<open>New\<close> constructs a core whose \<open>N\<close> is that size and whose \<open>F\<close> is
  \<open>ceil(N/3) - 1\<close> in exact integer arithmetic, that is \<open>(N + 2) div 3 - 1\<close>; so
  \<open>F\<close> is \<open>k\<close> for \<open>N = 3k + 1\<close>, and 1 for four validators.
\<close>

theorem New_N_F:
  assumes "1 \<le> Size (bValidators b)" and "Size (bValidators b) < 2 ^ 53"
  shows "N (New b) = Size (bValidators b)
         \<and> F (New b) = \<lceil>(of_int (Size (bValidators b)) :: rat) / 3\<rceil> - 1
         \<and> F (New b) = (Size (bValidators b) + 2) div 3 - 1
         \<and> (\<forall>k. Size (bValidators b) = 3 * k + 1 \<longrightarrow> F (New b) = k)"
proof -
  have f: "F (New b) = \<lceil>(of_int (Size (bValidators b)) :: rat) / 3\<rceil> - 1"
    using float64_faults_exact [OF assms] by (simp add: New_def Let_def)
  then have "F (New b) = (Size (bValidators b) + 2) div 3 - 1"
    by (simp only: ceiling_third)
  with f show ?thesis by (auto simp: New_def Let_def)
qed

theorem New_N_F_witness:
  "1 \<le> Size (bValidators backend4) \<and> Size (bValidators backend4) < 2 ^ 53
   \<and> Size (bValidators backend4) = 3 * 1 + 1
   \<and> N (New backend4) = 4 \<and> F (New backend4) = 1"
proof -
  have s: "Size (bValidators backend4) = 4" by (simp add: Size_def backend4_def)
  with New_N_F [of backend4] show ?thesis by simp
qed

text \<open>
  C6 as stated fails for large sets: with \<open>2^53 + 5\<close> validators the conversion to
  \<open>float64\<close> rounds the size to \<open>2^53 + 4\<close>, and \<open>F\<close> comes out one below
  \<open>ceil(N/3) - 1\<close>.
\<close>

theorem New_N_F_counterexample:
  "1 \<le> Size (bValidators backend_huge)
   \<and> F (New backend_huge) = 3002399751580331
   \<and> \<lceil>(of_int (Size (bValidators backend_huge)) :: rat) / 3\<rceil> - 1 = 3002399751580332
   \<and> F (New backend_huge) \<noteq> \<lceil>(of_int (Size (bValidators backend_huge)) :: rat) / 3\<rceil> - 1"
proof -
  have s: "Size (bValidators backend_huge) = 9007199254740997"
    by (simp add: Size_def backend_huge_def)
  have "\<lceil>(9007199254740997 :: rat) / 3\<rceil> = 3002399751580333"
    using ceiling_third [of 9007199254740997] by simp
  then show ?thesis
    by (simp add: s New_def Let_def float64_faults_huge)
qed

subsection \<open>\<open>commit\<close>\<close>

lemma count_backlogEvents:
  "count_list (map (backlogEvent a) ms) buildCheckpointEvent = 0"
  by (induction ms) simp_all

lemma count_replayed:
  "count_list (concat (map (\<lambda>(a, q). map (backlogEvent a) (snd (drain c q))) bl))
     buildCheckpointEvent = 0"
  by (induction bl) (auto simp: count_backlogEvents)

lemma processBacklog_checkpoints:
  "count_list (posted (backend (processBacklog c))) buildCheckpointEvent
   = count_list (posted (backend c)) buildCheckpointEvent"
  by (simp add: processBacklog_def count_replayed)

lemma setState_frame:
  "state (setState st c) = st"
  "current (setState st c) = current c"
  "snapshots (setState st c) = snapshots c"
  "sequence (setState st c) = sequence c"
  "viewNumber (setState st c) = viewNumber c"
  "completed (setState st c) = completed c"
  "logger (setState st c) = logger c"
  "N (setState st c) = N c"
  "F (setState st c) = F c"
  "sentMsgs (backend (setState st c)) = sentMsgs (backend c)"
  "committed (backend (setState st c)) = committed (backend c)"
  "bValidators (backend (setState st c)) = bValidators (backend c)"
  "count_list (posted (backend (setState st c))) buildCheckpointEvent
   = count_list (posted (backend c)) buildCheckpointEvent"
  "backlogRuns (setState st c) = (if state c = st then backlogRuns c else Suc (backlogRuns c))"
  by (simp_all add: setState_def processBacklog_frame processBacklog_checkpoints)


text \<open>\<open>commit\<close> returns the last core of its run.\<close>

lemma commit_trace_last: "commit c = map_option last (commit_trace c)"
  by (simp add: commit_def commit_trace_def Let_def split: option.splits)

text \<open>
  C5. When the current round has an accepted Preprepare and a sequence, \<open>commit\<close>
  returns, and its run is, in this order: the state change to Committed, with nothing
  else done yet; the log line, which carries that state; \<open>Backend.Commit\<close> with the
  Preprepare's proposal, called in state Committed while the history and the counters
  are still the old ones; the append of the current round to the snapshot history; the
  assignment of the round's view number; the assignment of its sequence; the
  completion flag, set while the state is still Committed; the state change to
  AcceptRequest; and the checkpoint post, if any. Afterwards the state is
  AcceptRequest, \<open>completed\<close> is true, the history has grown by exactly the committed
  round, and \<open>sequence\<close> and \<open>viewNumber\<close> are the round's.
\<close>

theorem commit_effects:
  assumes "current c = Some cur" and "snapPreprepare cur = Some pp"
    and "snapSequence cur = Some s"
  shows "\<exists>c1 c2 c3 c4 c5 c6 c7 c8 c'.
           commit_trace c = Some [c1, c2, c3, c4, c5, c6, c7, c8, c']
           \<and> commit c = Some c'
           \<and> c1 = setState StateCommitted c
           \<and> c2 = c1\<lparr>logger := logger c1 @ [Debug_log StateCommitted ''Ready to commit'' (ppView pp)]\<rparr>
           \<and> c3 = c2\<lparr>backend := Commit (ppProposal pp) (backend c2)\<rparr>
           \<and> c4 = c3\<lparr>snapshots := snapshots c3 @ [cur]\<rparr>
           \<and> c5 = c4\<lparr>viewNumber := snapViewNumber cur\<rparr>
           \<and> c6 = c5\<lparr>sequence := snapSequence cur\<rparr>
           \<and> c7 = c6\<lparr>completed := True\<rparr>
           \<and> c8 = setState StateAcceptRequest c7
           \<and> c' = (if s mod 100 = 0 then c8\<lparr>backend := Post buildCheckpointEvent (backend c8)\<rparr>
                     else c8)
           \<and> map state [c1, c2, c3, c4, c5, c6, c7, c8, c']
               = [StateCommitted, StateCommitted, StateCommitted, StateCommitted, StateCommitted,
                  StateCommitted, StateCommitted, StateAcceptRequest, StateAcceptRequest]
           \<and> map (\<lambda>x. committed (backend x)) [c1, c2, c3, c4, c5, c6, c7, c8, c']
               = [committed (backend c), committed (backend c)]
                 @ replicate 7 (committed (backend c) @ [ppProposal pp])
           \<and> map snapshots [c1, c2, c3, c4, c5, c6, c7, c8, c']
               = replicate 3 (snapshots c) @ replicate 6 (snapshots c @ [cur])
           \<and> map viewNumber [c1, c2, c3, c4, c5, c6, c7, c8, c']
               = replicate 4 (viewNumber c) @ replicate 5 (snapViewNumber cur)
           \<and> map sequence [c1, c2, c3, c4, c5, c6, c7, c8, c']
               = replicate 5 (sequence c) @ replicate 4 (snapSequence cur)
           \<and> map completed [c1, c2, c3, c4, c5, c6, c7, c8, c']
               = replicate 6 (completed c) @ replicate 3 True
           \<and> state c' = StateAcceptRequest
           \<and> completed c'
           \<and> snapshots c' = snapshots c @ [cur]
           \<and> sequence c' = snapSequence cur
           \<and> viewNumber c' = snapViewNumber cur
           \<and> committed (backend c') = committed (backend c) @ [ppProposal pp]
           \<and> logger c' = logger c @ [Debug_log StateCommitted ''Ready to commit'' (ppView pp)]
           \<and> current c' = Some cur
           \<and> backlogRuns c' = backlogRuns c + (if state c = StateCommitted then 1 else 2)"
  by (simp add: commit_trace_last commit_trace_def Let_def setState_frame Commit_def Post_def
      assms eval_nat_numeral)

theorem commit_effects_witness:
  "current (core_at 7) = Some (round_at 7)
   \<and> (\<exists>c'. commit (core_at 7) = Some c'
         \<and> state c' = StateAcceptRequest
         \<and> completed c'
         \<and> snapshots c' = [round_at 7]
         \<and> sequence c' = Some 7
         \<and> viewNumber c' = Some 0
         \<and> committed (backend c') = [Some proposal0])
   \<and> (\<exists>run. commit_trace (core_at 7) = Some run
         \<and> map state run
             = [StateCommitted, StateCommitted, StateCommitted, StateCommitted, StateCommitted,
                StateCommitted, StateCommitted, StateAcceptRequest, StateAcceptRequest]
         \<and> map (\<lambda>x. committed (backend x)) run
             = [[], [], [Some proposal0], [Some proposal0], [Some proposal0], [Some proposal0],
                [Some proposal0], [Some proposal0], [Some proposal0]]
         \<and> map snapshots run
             = [[], [], [], [round_at 7], [round_at 7], [round_at 7], [round_at 7],
                [round_at 7], [round_at 7]]
         \<and> map sequence run
             = [Some 0, Some 0, Some 0, Some 0, Some 0, Some 7, Some 7, Some 7, Some 7]
         \<and> map completed run
             = [False, False, False, False, False, False, True, True, True])"
proof -
  have a: "current (core_at 7) = Some (round_at 7)"
    and b: "snapPreprepare (round_at 7)
            = Some \<lparr>ppView = Some \<lparr>ViewNumber = Some 0, Sequence = Some 7\<rparr>,
                    ppProposal = Some proposal0\<rparr>"
    and d: "snapSequence (round_at 7) = Some 7"
    and e: "snapshots (core_at 7) = []" "committed (backend (core_at 7)) = []"
      "snapViewNumber (round_at 7) = Some 0" "sequence (core_at 7) = Some 0"
      "completed (core_at 7) = False"
    by (simp_all add: core_at_def round_at_def New_def Let_def backend4_def)
  from commit_effects [OF a b d] obtain c1 c2 c3 c4 c5 c6 c7 c8 c' where
    t: "commit_trace (core_at 7) = Some [c1, c2, c3, c4, c5, c6, c7, c8, c']"
    and r: "commit (core_at 7) = Some c'" "state c' = StateAcceptRequest" "completed c'"
      "snapshots c' = snapshots (core_at 7) @ [round_at 7]"
      "sequence c' = snapSequence (round_at 7)"
      "viewNumber c' = snapViewNumber (round_at 7)"
      "committed (backend c') = committed (backend (core_at 7))
         @ [ppProposal \<lparr>ppView = Some \<lparr>ViewNumber = Some 0, Sequence = Some 7\<rparr>,
                        ppProposal = Some proposal0\<rparr>]"
    and m: "map state [c1, c2, c3, c4, c5, c6, c7, c8, c']
               = [StateCommitted, StateCommitted, StateCommitted, StateCommitted, StateCommitted,
                  StateCommitted, StateCommitted, StateAcceptRequest, StateAcceptRequest]"
      "map (\<lambda>x. committed (backend x)) [c1, c2, c3, c4, c5, c6, c7, c8, c']
               = [committed (backend (core_at 7)), committed (backend (core_at 7))]
                 @ replicate 7 (committed (backend (core_at 7))
                     @ [ppProposal \<lparr>ppView = Some \<lparr>ViewNumber = Some 0, Sequence = Some 7\<rparr>,
                                    ppProposal = Some proposal0\<rparr>])"
      "map snapshots [c1, c2, c3, c4, c5, c6, c7, c8, c']
               = replicate 3 (snapshots (core_at 7)) @ replicate 6 (snapshots (core_at 7) @ [round_at 7])"
      "map sequence [c1, c2, c3, c4, c5, c6, c7, c8, c']
               = replicate 5 (sequence (core_at 7)) @ replicate 4 (snapSequence (round_at 7))"
      "map completed [c1, c2, c3, c4, c5, c6, c7, c8, c']
               = replicate 6 (completed (core_at 7)) @ replicate 3 True"
    by (elim exE conjE) (rule that, assumption+)
  have "\<exists>c'. commit (core_at 7) = Some c'
         \<and> state c' = StateAcceptRequest
         \<and> completed c'
         \<and> snapshots c' = [round_at 7]
         \<and> sequence c' = Some 7
         \<and> viewNumber c' = Some 0
         \<and> committed (backend c') = [Some proposal0]"
    using r d e by simp
  moreover have "\<exists>run. commit_trace (core_at 7) = Some run
         \<and> map state run
             = [StateCommitted, StateCommitted, StateCommitted, StateCommitted, StateCommitted,
                StateCommitted, StateCommitted, StateAcceptRequest, StateAcceptRequest]
         \<and> map (\<lambda>x. committed (backend x)) run
             = [[], [], [Some proposal0], [Some proposal0], [Some proposal0], [Some proposal0],
                [Some proposal0], [Some proposal0], [Some proposal0]]
         \<and> map snapshots run
             = [[], [], [], [round_at 7], [round_at 7], [round_at 7], [round_at 7],
                [round_at 7], [round_at 7]]
         \<and> map sequence run
             = [Some 0, Some 0, Some 0, Some 0, Some 0, Some 7, Some 7, Some 7, Some 7]
         \<and> map completed run
             = [False, False, False, False, False, False, True, True, True]"
    using m d e
    by (intro exI [of _ "[c1, c2, c3, c4, c5, c6, c7, c8, c']"])
      (simp add: t eval_nat_numeral del: list.map)
  ultimately show ?thesis using a by blast
qed




section \<open>Properties of handling Prepare votes\<close>

lemma view_less_irrefl: "\<not> view_less v v"
  by (auto simp: view_less_def split: option.splits)

lemma view_below_irrefl: "\<not> view_below v v"
  by (auto simp: view_below_def view_less_irrefl split: option.splits)

lemma view_less_asym: "view_less v w \<Longrightarrow> \<not> view_less w v"
  by (auto simp: view_less_def split: option.splits)

lemma view_below_asym: "view_below v w \<Longrightarrow> \<not> view_below w v"
  by (auto simp: view_below_def dest: view_less_asym split: option.splits)

lemma insert_entry_mem: "e \<in> set (insert_entry e q)"
  by (induction q) auto

lemma push_backlog_mem: "\<exists>q. map_of (push_backlog a e bl) a = Some q \<and> e \<in> set q"
  by (induction bl) (auto simp: insert_entry_mem)

lemma broadcast_sent:
  assumes "Encode K code msg = Inr m" and "ToPayload K m = Inr payload"
  shows "snd (broadcast K code msg c) = c\<lparr>backend := Send payload (backend c)\<rparr>"
  using assms by (simp add: broadcast_def)

lemma handlePrepare_accept:
  assumes cur: "current c = Some cur"
    and subj: "roundSubject cur = Some subj"
    and view: "sView subj = Some \<lparr>ViewNumber = snapViewNumber cur, Sequence = snapSequence cur\<rparr>"
    and st: "state c = StatePreprepared \<or> state c = StatePrepared"
    and dec: "Decode K m = Inr subj"
    and mem: "a \<in> set (bValidators (backend c))"
    and new: "a \<notin> fst ` set (Prepares cur)"
    and enc: "Encode K msgCommit subj = Inr cm" "ToPayload K cm = Inr payload"
  shows "\<exists>c'. handlePrepare K m a c = (None, c')
    \<and> current c' = Some (cur\<lparr>Prepares := Prepares cur @ [(a, subj)]\<rparr>)
    \<and> F c' = F c \<and> bValidators (backend c') = bValidators (backend c)
    \<and> state c' = (if \<not> Quorum c \<le> int (length (Prepares cur))
                      \<and> Quorum c \<le> int (length (Prepares cur)) + 1
                      \<and> state c = StatePreprepared
                   then StatePrepared else state c)
    \<and> sentMsgs (backend c') = sentMsgs (backend c)
         @ (if \<not> Quorum c \<le> int (length (Prepares cur))
                      \<and> Quorum c \<le> int (length (Prepares cur)) + 1
                      \<and> state c = StatePreprepared
            then [payload] else [])"
proof -
  have cv: "currentView c = sView subj" by (simp add: currentView_def cur view)
  have chk: "checkMessage msgPrepare (sView subj) c = None"
    using st by (auto simp: checkMessage_def cv view_below_irrefl)
  have ver: "verifyPrepare subj a c = None"
    by (simp add: verifyPrepare_def currentSubject_def cur subj)
  have add: "AddPrepare subj a cur = cur\<lparr>Prepares := Prepares cur @ [(a, subj)]\<rparr>"
    using new by (simp add: AddPrepare_def view addVote_def)
  show ?thesis
    by (simp add: handlePrepare_def dec chk ver mem cur add Let_def PreparedQuorumReached_def
        Quorum_def broadcast_sent [OF enc] setState_frame Send_def)
qed


lemma deliver_votes:
  assumes "current c = Some cur"
    and "roundSubject cur = Some subj"
    and "sView subj = Some \<lparr>ViewNumber = snapViewNumber cur, Sequence = snapSequence cur\<rparr>"
    and "state c = (if Quorum c \<le> int (length (Prepares cur)) then StatePrepared
                    else StatePreprepared)"
    and "\<forall>(m, a) \<in> set votes. Decode K m = Inr subj \<and> a \<in> set (bValidators (backend c))
           \<and> a \<notin> fst ` set (Prepares cur)"
    and "distinct (map snd votes)"
    and enc: "Encode K msgCommit subj = Inr cm" "ToPayload K cm = Inr payload"
  shows "\<exists>c'. deliver K votes c = (None, c')
    \<and> current c' = Some (cur\<lparr>Prepares := Prepares cur @ map (\<lambda>(m, a). (a, subj)) votes\<rparr>)
    \<and> F c' = F c \<and> bValidators (backend c') = bValidators (backend c)
    \<and> state c' = (if Quorum c \<le> int (length (Prepares cur) + length votes)
                   then StatePrepared else StatePreprepared)
    \<and> sentMsgs (backend c') = sentMsgs (backend c)
         @ (if \<not> Quorum c \<le> int (length (Prepares cur))
               \<and> Quorum c \<le> int (length (Prepares cur) + length votes)
            then [payload] else [])"
  using assms(1-6)
proof (induction votes arbitrary: c cur)
  case Nil
  then show ?case by simp
next
  case (Cons v votes)
  obtain m a where v: "v = (m, a)" by (cases v)
  let ?cur = "cur\<lparr>Prepares := Prepares cur @ [(a, subj)]\<rparr>"
  have st: "state c = StatePreprepared \<or> state c = StatePrepared"
    using Cons.prems(4) by (simp split: if_splits)
  have dec: "Decode K m = Inr subj" and mem: "a \<in> set (bValidators (backend c))"
    and new: "a \<notin> fst ` set (Prepares cur)"
    using Cons.prems(5) by (simp_all add: v)
  from handlePrepare_accept [OF Cons.prems(1) Cons.prems(2) Cons.prems(3) st dec mem new enc]
  obtain c1 where h: "handlePrepare K m a c = (None, c1)"
    and c1: "current c1 = Some ?cur" "F c1 = F c"
      "bValidators (backend c1) = bValidators (backend c)"
    and s1: "state c1 = (if \<not> Quorum c \<le> int (length (Prepares cur))
                      \<and> Quorum c \<le> int (length (Prepares cur)) + 1
                      \<and> state c = StatePreprepared
                   then StatePrepared else state c)"
    and m1: "sentMsgs (backend c1) = sentMsgs (backend c)
         @ (if \<not> Quorum c \<le> int (length (Prepares cur))
                      \<and> Quorum c \<le> int (length (Prepares cur)) + 1
                      \<and> state c = StatePreprepared
            then [payload] else [])"
    by blast
  have q: "Quorum c1 = Quorum c" by (simp add: Quorum_def c1)
  have p2: "roundSubject ?cur = Some subj"
    using Cons.prems(2) by (simp add: roundSubject_def)
  have p3: "sView subj = Some \<lparr>ViewNumber = snapViewNumber ?cur, Sequence = snapSequence ?cur\<rparr>"
    using Cons.prems(3) by simp
  have p4: "state c1 = (if Quorum c1 \<le> int (length (Prepares ?cur)) then StatePrepared
                        else StatePreprepared)"
    using Cons.prems(4) by (simp add: s1 q)
  have p5: "\<forall>(m, b) \<in> set votes. Decode K m = Inr subj \<and> b \<in> set (bValidators (backend c1))
           \<and> b \<notin> fst ` set (Prepares ?cur)"
    using Cons.prems(5) Cons.prems(6) by (force simp: v c1)
  have p6: "distinct (map snd votes)" using Cons.prems(6) by simp
  from Cons.IH [OF c1(1) p2 p3 p4 p5 p6]
  obtain c' where d: "deliver K votes c1 = (None, c')"
    and r: "current c' = Some (?cur\<lparr>Prepares := Prepares ?cur @ map (\<lambda>(m, a). (a, subj)) votes\<rparr>)"
      "F c' = F c1" "bValidators (backend c') = bValidators (backend c1)"
      "state c' = (if Quorum c1 \<le> int (length (Prepares ?cur) + length votes)
                   then StatePrepared else StatePreprepared)"
      "sentMsgs (backend c') = sentMsgs (backend c1)
         @ (if \<not> Quorum c1 \<le> int (length (Prepares ?cur))
               \<and> Quorum c1 \<le> int (length (Prepares ?cur) + length votes)
            then [payload] else [])"
    by blast
  have "deliver K (v # votes) c = (None, c')" by (simp add: v h d)
  moreover have "current c' = Some (cur\<lparr>Prepares := Prepares cur @ map (\<lambda>(m, a). (a, subj)) (v # votes)\<rparr>)"
    by (simp add: r v)
  moreover have "state c' = (if Quorum c \<le> int (length (Prepares cur) + length (v # votes))
                   then StatePrepared else StatePreprepared)"
    by (simp add: r q)
  moreover have "sentMsgs (backend c') = sentMsgs (backend c)
         @ (if \<not> Quorum c \<le> int (length (Prepares cur))
               \<and> Quorum c \<le> int (length (Prepares cur) + length (v # votes))
            then [payload] else [])"
    using Cons.prems(4) by (auto simp: r q m1)
  ultimately show ?case by (simp add: r c1)
qed


lemma count_list_replicate: "count_list (replicate n x) y = (if x = y then n else 0)"
  by (induction n) auto

lemma toy_codec_lossless:
  assumes "Encode toy_codec code s = Inr m" and "ToPayload toy_codec m = Inr p"
  shows "FromPayload toy_codec p = Inr m \<and> Code m = code \<and> Decode toy_codec m = Inr s"
proof -
  from assms(1) obtain v n q where s: "sView s = Some v" "ViewNumber v = Some n"
    "Sequence v = Some q" "0 \<le> n" "0 \<le> q"
    and m: "m = \<lparr> Code = code,
                  Msg = replicate (nat n) CHR ''v'' @ replicate (nat q) CHR ''s''
                        @ replicate (unat (Digest s)) CHR ''d'',
                  mAddress = 0 \<rparr>"
    by (auto simp: toy_codec_def split: option.splits if_splits)
  from assms(2) have p: "p = replicate (unat code) CHR ''c'' @ Msg m"
    by (simp add: toy_codec_def m)
  have v: "v = \<lparr>ViewNumber = Some n, Sequence = Some q\<rparr>" using s by (cases v) simp
  have "s = \<lparr>sView = Some v, Digest = Digest s\<rparr>" using s by (cases s) simp
  then have d: "Decode toy_codec m = Inr s"
    using s by (simp add: toy_codec_def m count_list_replicate v)
  have "FromPayload toy_codec p = Inr m"
    by (simp add: toy_codec_def p m count_list_replicate)
  with d show ?thesis by (simp add: m)
qed

text \<open>
  C1. Let the core be in state Preprepared with a current round that has an accepted
  Preprepare for the round's own view and no Prepare votes yet, let \<open>F\<close> be
  non-negative, and let the codec be lossless. After handling Prepare votes from
  distinct members of the validator set, each carrying the current subject, every vote
  has been accepted, and the state is Prepared if and only if the number of votes has
  reached \<open>2F+1\<close> and Preprepared otherwise. If it has, \<open>Backend.Send\<close> has been called
  exactly once, with the payload of the Commit message for the current subject, which
  decodes to code \<open>msgCommit\<close> and that subject; if it has not, nothing has been sent.
\<close>

theorem handlePrepare_quorum:
  assumes "state c = StatePreprepared"
    and "current c = Some cur" and "Prepares cur = []"
    and "roundSubject cur = Some subj"
    and "sView subj = Some \<lparr>ViewNumber = snapViewNumber cur, Sequence = snapSequence cur\<rparr>"
    and "0 \<le> F c"
    and "\<forall>(m, a) \<in> set votes. Decode K m = Inr subj \<and> a \<in> set (bValidators (backend c))"
    and "distinct (map snd votes)"
    and "\<And>code s m p. Encode K code s = Inr m \<Longrightarrow> ToPayload K m = Inr p
           \<Longrightarrow> FromPayload K p = Inr m \<and> Code m = code \<and> Decode K m = Inr s"
    and "Encode K msgCommit subj = Inr cm" and "ToPayload K cm = Inr payload"
  shows "\<exists>c'. deliver K votes c = (None, c')
      \<and> (state c' = StatePrepared \<longleftrightarrow> 2 * F c + 1 \<le> int (length votes))
      \<and> (state c' = StatePreprepared \<longleftrightarrow> int (length votes) < 2 * F c + 1)
      \<and> sentMsgs (backend c') = sentMsgs (backend c)
           @ (if 2 * F c + 1 \<le> int (length votes) then [payload] else [])
      \<and> FromPayload K payload = Inr cm \<and> Code cm = msgCommit \<and> Decode K cm = Inr subj
      \<and> map_option (\<lambda>r. length (Prepares r)) (current c') = Some (length votes)"
proof -
  have q: "\<not> Quorum c \<le> int (length (Prepares cur))"
    using assms(3,6) by (simp add: Quorum_def)
  then have st: "state c = (if Quorum c \<le> int (length (Prepares cur)) then StatePrepared
                    else StatePreprepared)"
    using assms(1) by simp
  have vs: "\<forall>(m, a) \<in> set votes. Decode K m = Inr subj \<and> a \<in> set (bValidators (backend c))
           \<and> a \<notin> fst ` set (Prepares cur)"
    using assms(7) by (simp add: assms(3))
  from deliver_votes [OF assms(2) assms(4) assms(5) st vs assms(8) assms(10) assms(11)]
  obtain c' where "deliver K votes c = (None, c')"
    "current c' = Some (cur\<lparr>Prepares := Prepares cur @ map (\<lambda>(m, a). (a, subj)) votes\<rparr>)"
    "state c' = (if Quorum c \<le> int (length (Prepares cur) + length votes)
                   then StatePrepared else StatePreprepared)"
    "sentMsgs (backend c') = sentMsgs (backend c)
         @ (if \<not> Quorum c \<le> int (length (Prepares cur))
               \<and> Quorum c \<le> int (length (Prepares cur) + length votes)
            then [payload] else [])"
    by blast
  moreover note assms(9) [OF assms(10) assms(11)]
  ultimately show ?thesis
    using q by (simp add: assms(3) Quorum_def)
qed

lemma vote_decodes: "Decode toy_codec (vote_at 1 a) = Inr (subject_at 1)"
  by (simp add: toy_codec_def vote_at_def subject_at_def count_list_replicate)


lemma core_preprepared_facts:
  "state (core_preprepared s) = StatePreprepared"
  "current (core_preprepared s) = Some (round_at s)"
  "F (core_preprepared s) = 1"
  "bValidators (backend (core_preprepared s)) = [1, 2, 3, 4]"
  "sentMsgs (backend (core_preprepared s)) = []"
  "backlogs (core_preprepared s) = []"
  by (simp_all add: core_preprepared_def core_at_def New_def Let_def backend4_def Size_def
      float64_faults_4)

lemma round_at_facts:
  "Prepares (round_at s) = []"
  "roundSubject (round_at s) = Some (subject_at s)"
  "sView (subject_at s) = Some \<lparr>ViewNumber = snapViewNumber (round_at s),
                                 Sequence = snapSequence (round_at s)\<rparr>"
  by (simp_all add: round_at_def roundSubject_def subject_at_def proposal0_def)

lemma commit_vote_encodes:
  "Encode toy_codec msgCommit (subject_at 1)
     = Inr \<lparr>Code = msgCommit, Msg = ''sddddddd'', mAddress = 0\<rparr>"
  "ToPayload toy_codec \<lparr>Code = msgCommit, Msg = ''sddddddd'', mAddress = 0\<rparr>
     = Inr ''ccsddddddd''"
  by code_simp+

theorem handlePrepare_quorum_witness:
  "(\<exists>c'. deliver toy_codec [(vote_at 1 1, 1), (vote_at 1 2, 2), (vote_at 1 3, 3)]
           (core_preprepared 1) = (None, c')
      \<and> state c' = StatePrepared \<and> sentMsgs (backend c') = [''ccsddddddd''])
   \<and> (\<exists>c'. deliver toy_codec [(vote_at 1 1, 1), (vote_at 1 2, 2)]
           (core_preprepared 1) = (None, c')
      \<and> state c' = StatePreprepared \<and> sentMsgs (backend c') = [])"
proof -
  let ?three = "[(vote_at 1 1, 1), (vote_at 1 2, 2), (vote_at 1 3, 3)] :: (Message \<times> Address) list"
  let ?two = "[(vote_at 1 1, 1), (vote_at 1 2, 2)] :: (Message \<times> Address) list"
  have v3: "\<forall>(m, a) \<in> set ?three. Decode toy_codec m = Inr (subject_at 1)
             \<and> a \<in> set (bValidators (backend (core_preprepared 1)))"
    and v2: "\<forall>(m, a) \<in> set ?two. Decode toy_codec m = Inr (subject_at 1)
             \<and> a \<in> set (bValidators (backend (core_preprepared 1)))"
    by (simp_all add: vote_decodes core_preprepared_facts)
  have d3: "distinct (map snd ?three)" and d2: "distinct (map snd ?two)" by simp_all
  have f: "0 \<le> F (core_preprepared 1)" by (simp add: core_preprepared_facts)
  from handlePrepare_quorum [of "core_preprepared 1" "round_at 1" "subject_at 1" ?three toy_codec,
      OF core_preprepared_facts(1) core_preprepared_facts(2) round_at_facts(1)
        round_at_facts(2) round_at_facts(3) f v3 d3 toy_codec_lossless commit_vote_encodes]
  obtain c3 where c3: "deliver toy_codec ?three (core_preprepared 1) = (None, c3)"
    "state c3 = StatePrepared \<longleftrightarrow> 2 * F (core_preprepared 1) + 1 \<le> int (length ?three)"
    "sentMsgs (backend c3) = sentMsgs (backend (core_preprepared 1))
       @ (if 2 * F (core_preprepared 1) + 1 \<le> int (length ?three) then [''ccsddddddd''] else [])"
    by blast
  from handlePrepare_quorum [of "core_preprepared 1" "round_at 1" "subject_at 1" ?two toy_codec,
      OF core_preprepared_facts(1) core_preprepared_facts(2) round_at_facts(1)
        round_at_facts(2) round_at_facts(3) f v2 d2 toy_codec_lossless commit_vote_encodes]
  obtain c2 where c2: "deliver toy_codec ?two (core_preprepared 1) = (None, c2)"
    "state c2 = StatePreprepared \<longleftrightarrow> int (length ?two) < 2 * F (core_preprepared 1) + 1"
    "sentMsgs (backend c2) = sentMsgs (backend (core_preprepared 1))
       @ (if 2 * F (core_preprepared 1) + 1 \<le> int (length ?two) then [''ccsddddddd''] else [])"
    by blast
  have "\<exists>c'. deliver toy_codec ?three (core_preprepared 1) = (None, c')
      \<and> state c' = StatePrepared \<and> sentMsgs (backend c') = [''ccsddddddd'']"
    by (rule exI [of _ c3]) (simp add: c3 core_preprepared_facts del: deliver.simps)
  moreover have "\<exists>c'. deliver toy_codec ?two (core_preprepared 1) = (None, c')
      \<and> state c' = StatePreprepared \<and> sentMsgs (backend c') = []"
    by (rule exI [of _ c2]) (simp add: c2 core_preprepared_facts del: deliver.simps)
  ultimately show ?thesis by blast
qed

subsection \<open>\<open>broadcast\<close>\<close>

text \<open>
  C8, as amended. When encoding fails in \<open>broadcast\<close>, in \<open>pbft.Encode\<close> or in
  \<open>ToPayload\<close>, \<open>Backend.Send\<close> is not called and the state, the sequence, the view
  number, the current round with its votes, the backlog and the snapshot history are
  unchanged: the only effect is one error record of the logger, carrying the error.
  \<open>broadcast\<close> has no result, so its caller receives nothing.
\<close>

theorem broadcast_encoding_failure:
  assumes "Encode K code msg = Inl err \<or> (\<exists>m. Encode K code msg = Inr m \<and> ToPayload K m = Inl err)"
  shows "\<exists>text. snd (broadcast K code msg c)
              = c\<lparr>logger := logger c @ [Error_log (state c) text err]\<rparr>
           \<and> backend (snd (broadcast K code msg c)) = backend c
           \<and> sentMsgs (backend (snd (broadcast K code msg c))) = sentMsgs (backend c)
           \<and> state (snd (broadcast K code msg c)) = state c
           \<and> sequence (snd (broadcast K code msg c)) = sequence c
           \<and> viewNumber (snd (broadcast K code msg c)) = viewNumber c
           \<and> current (snd (broadcast K code msg c)) = current c
           \<and> backlogs (snd (broadcast K code msg c)) = backlogs c
           \<and> snapshots (snd (broadcast K code msg c)) = snapshots c
           \<and> fst (broadcast K code msg c) = ()"
  using assms by (auto simp: broadcast_def)

theorem broadcast_encoding_failure_witness:
  "Encode toy_codec msgCommit subject_nil = Inl (errOther ''nil number'')
   \<and> snd (broadcast toy_codec msgCommit subject_nil (core_at 1))
       = (core_at 1)\<lparr>logger := [Error_log StatePrepared ''Failed to encode message''
                                    (errOther ''nil number'')]\<rparr>
   \<and> sentMsgs (backend (snd (broadcast toy_codec msgCommit subject_nil (core_at 1)))) = []
   \<and> ToPayload unmarshalable_codec \<lparr>Code = msgCommit, Msg = ''sddddddd'', mAddress = 0\<rparr>
       = Inl (errOther ''too large'')
   \<and> sentMsgs (backend (snd (broadcast unmarshalable_codec msgCommit (subject_at 1) (core_at 1)))) = []"
proof -
  have e: "Encode toy_codec msgCommit subject_nil = Inl (errOther ''nil number'')"
    by (simp add: toy_codec_def subject_nil_def)
  have u: "Encode unmarshalable_codec msgCommit (subject_at 1)
             = Inr \<lparr>Code = msgCommit, Msg = ''sddddddd'', mAddress = 0\<rparr>"
    "ToPayload unmarshalable_codec \<lparr>Code = msgCommit, Msg = ''sddddddd'', mAddress = 0\<rparr>
       = Inl (errOther ''too large'')"
    using commit_vote_encodes(1) by (simp_all add: unmarshalable_codec_def toy_codec_def)
  have s: "sentMsgs (backend (core_at 1)) = []" "logger (core_at 1) = []"
    "state (core_at 1) = StatePrepared"
    by (simp_all add: core_at_def New_def Let_def backend4_def)
  from broadcast_encoding_failure [of toy_codec msgCommit subject_nil "errOther ''nil number''" "core_at 1"] e
  have "sentMsgs (backend (snd (broadcast toy_codec msgCommit subject_nil (core_at 1)))) = []"
    by (auto simp: s)
  moreover from broadcast_encoding_failure [of unmarshalable_codec msgCommit "subject_at 1"
      "errOther ''too large''" "core_at 1"] u
  have "sentMsgs (backend (snd (broadcast unmarshalable_codec msgCommit (subject_at 1) (core_at 1)))) = []"
    by (auto simp: s)
  moreover have "snd (broadcast toy_codec msgCommit subject_nil (core_at 1))
       = (core_at 1)\<lparr>logger := [Error_log StatePrepared ''Failed to encode message''
                                    (errOther ''nil number'')]\<rparr>"
    by (simp add: broadcast_def e s)
  ultimately show ?thesis using e u by simp
qed

text \<open>
  C8 as stated fails where it says that the error is surfaced to the caller: what the
  caller of \<open>broadcast\<close> receives when encoding fails is what it receives when the
  message is sent.
\<close>

theorem broadcast_encoding_failure_counterexample:
  "Encode toy_codec msgCommit subject_nil = Inl (errOther ''nil number'')
   \<and> Encode toy_codec msgCommit (subject_at 1)
       = Inr \<lparr>Code = msgCommit, Msg = ''sddddddd'', mAddress = 0\<rparr>
   \<and> ToPayload toy_codec \<lparr>Code = msgCommit, Msg = ''sddddddd'', mAddress = 0\<rparr>
       = Inr ''ccsddddddd''
   \<and> fst (broadcast toy_codec msgCommit subject_nil (core_at 1))
       = fst (broadcast toy_codec msgCommit (subject_at 1) (core_at 1))"
  using commit_vote_encodes by (simp add: toy_codec_def subject_nil_def)


subsection \<open>Rejected votes\<close>

lemma currentSubject_preprepared:
  "currentSubject (core_preprepared s) = Some (subject_at s)"
  by (simp add: currentSubject_def core_preprepared_facts round_at_facts)

lemma currentView_preprepared:
  "currentView (core_preprepared s) = Some \<lparr>ViewNumber = Some 0, Sequence = Some s\<rparr>"
  by (simp add: currentView_def core_preprepared_facts round_at_def)

text \<open>
  C3. \<open>verifyPrepare\<close> accepts a Prepare vote whose subject equals the current subject
  of the round and rejects every other with \<open>errInconsistentSubject\<close>, in particular
  one whose digest or whose view (a missing sequence, another sequence, another round)
  differs. A vote at the current view that \<open>verifyPrepare\<close> rejects leaves the core,
  and with it the Prepare votes, unchanged.
\<close>

theorem verifyPrepare_subject:
  "(currentSubject c = Some prepare \<longrightarrow> verifyPrepare prepare src c = None)
   \<and> (currentSubject c \<noteq> Some prepare \<longrightarrow>
        verifyPrepare prepare src c = Some errInconsistentSubject)
   \<and> (currentSubject c = Some cs \<and> (Digest prepare \<noteq> Digest cs \<or> sView prepare \<noteq> sView cs) \<longrightarrow>
        verifyPrepare prepare src c = Some errInconsistentSubject)
   \<and> (currentSubject c \<noteq> Some prepare \<and> Decode K msg = Inr prepare
        \<and> checkMessage msgPrepare (sView prepare) c = None \<longrightarrow>
        handlePrepare K msg src c = (Some errInconsistentSubject, c))"
  by (auto simp: verifyPrepare_def handlePrepare_def)

theorem verifyPrepare_subject_witness:
  "verifyPrepare (subject_at 0) 1 (core_preprepared 0) = None
   \<and> verifyPrepare ((subject_at 0)\<lparr>Digest := 9\<rparr>) 1 (core_preprepared 0)
       = Some errInconsistentSubject
   \<and> verifyPrepare subject_nil 1 (core_preprepared 0) = Some errInconsistentSubject
   \<and> verifyPrepare (subject_at 1) 1 (core_preprepared 0) = Some errInconsistentSubject
   \<and> verifyPrepare \<lparr>sView = Some \<lparr>ViewNumber = Some 1, Sequence = Some 0\<rparr>, Digest = 7\<rparr> 1
         (core_preprepared 0) = Some errInconsistentSubject
   \<and> handlePrepare toy_codec \<lparr>Code = msgPrepare, Msg = ''ddddddddd'', mAddress = 2\<rparr> 2
         (core_preprepared 0) = (Some errInconsistentSubject, core_preprepared 0)"
proof -
  note cs = currentSubject_preprepared [of 0]
  have d: "Decode toy_codec \<lparr>Code = msgPrepare, Msg = ''ddddddddd'', mAddress = 2\<rparr>
            = Inr ((subject_at 0)\<lparr>Digest := 9\<rparr>)"
    by (simp add: toy_codec_def subject_at_def)
  have k: "checkMessage msgPrepare (sView ((subject_at 0)\<lparr>Digest := 9\<rparr>)) (core_preprepared 0) = None"
    by (simp add: checkMessage_def currentView_preprepared subject_at_def view_below_irrefl
        core_preprepared_facts)
  have n: "Some (subject_at 0) \<noteq> Some ((subject_at 0)\<lparr>Digest := 9\<rparr>)"
    "Some (subject_at 0) \<noteq> Some subject_nil"
    "Some (subject_at 0) \<noteq> Some (subject_at 1)"
    "Some (subject_at 0)
       \<noteq> Some \<lparr>sView = Some \<lparr>ViewNumber = Some 1, Sequence = Some 0\<rparr>, Digest = 7\<rparr>"
    by (simp_all add: subject_at_def subject_nil_def)
  from verifyPrepare_subject [of "core_preprepared 0" "subject_at 0" 1] cs
  have "verifyPrepare (subject_at 0) 1 (core_preprepared 0) = None" by simp
  moreover from verifyPrepare_subject [of "core_preprepared 0" "(subject_at 0)\<lparr>Digest := 9\<rparr>" 1
      "subject_at 0" toy_codec "\<lparr>Code = msgPrepare, Msg = ''ddddddddd'', mAddress = 2\<rparr>"] cs n d k
  have "verifyPrepare ((subject_at 0)\<lparr>Digest := 9\<rparr>) 1 (core_preprepared 0)
          = Some errInconsistentSubject" by simp
  moreover from verifyPrepare_subject [of "core_preprepared 0" "(subject_at 0)\<lparr>Digest := 9\<rparr>" 2
      "subject_at 0" toy_codec "\<lparr>Code = msgPrepare, Msg = ''ddddddddd'', mAddress = 2\<rparr>"] cs n d k
  have "handlePrepare toy_codec \<lparr>Code = msgPrepare, Msg = ''ddddddddd'', mAddress = 2\<rparr> 2
         (core_preprepared 0) = (Some errInconsistentSubject, core_preprepared 0)" by simp
  moreover from verifyPrepare_subject [of "core_preprepared 0" subject_nil 1] cs n
  have "verifyPrepare subject_nil 1 (core_preprepared 0) = Some errInconsistentSubject" by simp
  moreover from verifyPrepare_subject [of "core_preprepared 0" "subject_at 1" 1] cs n
  have "verifyPrepare (subject_at 1) 1 (core_preprepared 0) = Some errInconsistentSubject" by simp
  moreover from verifyPrepare_subject [of "core_preprepared 0"
      "\<lparr>sView = Some \<lparr>ViewNumber = Some 1, Sequence = Some 0\<rparr>, Digest = 7\<rparr>" 1] cs n
  have "verifyPrepare \<lparr>sView = Some \<lparr>ViewNumber = Some 1, Sequence = Some 0\<rparr>, Digest = 7\<rparr> 1
         (core_preprepared 0) = Some errInconsistentSubject" by simp
  ultimately show ?thesis by simp
qed

text \<open>
  C4. For a Prepare vote that decodes, \<open>handlePrepare\<close> returns \<open>errOldMessage\<close> and
  leaves the core unchanged when the vote's view is strictly below the current view;
  when it is strictly above, \<open>handlePrepare\<close> returns \<open>errFutureMessage\<close> and puts the
  message into the sender's backlog, changing nothing else: the state, the current round
  with its votes, the backend, the history and the counters stay as they were.
\<close>

theorem handlePrepare_old_future:
  assumes "Decode K msg = Inr prepare"
  shows "(view_below (sView prepare) (currentView c) \<longrightarrow>
            handlePrepare K msg src c = (Some errOldMessage, c))
       \<and> (view_below (currentView c) (sView prepare) \<longrightarrow>
            (\<exists>c'. handlePrepare K msg src c = (Some errFutureMessage, c')
               \<and> c' = c\<lparr>backlogs := push_backlog src (sView prepare, msg) (backlogs c)\<rparr>
               \<and> (\<exists>q. map_of (backlogs c') src = Some q \<and> (sView prepare, msg) \<in> set q)
               \<and> state c' = state c \<and> current c' = current c
               \<and> backend c' = backend c \<and> snapshots c' = snapshots c
               \<and> sequence c' = sequence c \<and> viewNumber c' = viewNumber c))"
proof (intro conjI impI)
  assume "view_below (sView prepare) (currentView c)"
  then show "handlePrepare K msg src c = (Some errOldMessage, c)"
    by (simp add: handlePrepare_def assms checkMessage_def)
next
  assume a: "view_below (currentView c) (sView prepare)"
  then have "\<not> view_below (sView prepare) (currentView c)" by (rule view_below_asym)
  with a have "handlePrepare K msg src c
      = (Some errFutureMessage, c\<lparr>backlogs := push_backlog src (sView prepare, msg) (backlogs c)\<rparr>)"
    by (simp add: handlePrepare_def assms checkMessage_def storeBacklog_def)
  then show "\<exists>c'. handlePrepare K msg src c = (Some errFutureMessage, c')
               \<and> c' = c\<lparr>backlogs := push_backlog src (sView prepare, msg) (backlogs c)\<rparr>
               \<and> (\<exists>q. map_of (backlogs c') src = Some q \<and> (sView prepare, msg) \<in> set q)
               \<and> state c' = state c \<and> current c' = current c
               \<and> backend c' = backend c \<and> snapshots c' = snapshots c
               \<and> sequence c' = sequence c \<and> viewNumber c' = viewNumber c"
    using push_backlog_mem [of src "(sView prepare, msg)" "backlogs c"] by simp
qed

lemma vote_at_decodes: "0 \<le> s \<Longrightarrow> Decode toy_codec (vote_at s a) = Inr (subject_at s)"
  by (simp add: toy_codec_def vote_at_def subject_at_def count_list_replicate)

theorem handlePrepare_old_future_witness:
  "handlePrepare toy_codec (vote_at 0 2) 2 (core_preprepared 1)
     = (Some errOldMessage, core_preprepared 1)
   \<and> handlePrepare toy_codec (vote_at 3 2) 2 (core_preprepared 1)
     = (Some errFutureMessage,
        (core_preprepared 1)\<lparr>backlogs :=
           [(2, [(Some \<lparr>ViewNumber = Some 0, Sequence = Some 3\<rparr>, vote_at 3 2)])]\<rparr>)"
proof -
  have old: "view_below (sView (subject_at 0)) (currentView (core_preprepared 1))"
    and fut: "view_below (currentView (core_preprepared 1)) (sView (subject_at 3))"
    by (simp_all add: currentView_preprepared subject_at_def view_below_def view_less_def)
  have d0: "Decode toy_codec (vote_at 0 2) = Inr (subject_at 0)"
    and d3: "Decode toy_codec (vote_at 3 2) = Inr (subject_at 3)"
    by (simp_all add: vote_at_decodes)
  from handlePrepare_old_future [OF d0, of "core_preprepared 1" 2] old
  have "handlePrepare toy_codec (vote_at 0 2) 2 (core_preprepared 1)
          = (Some errOldMessage, core_preprepared 1)"
    by simp
  moreover from handlePrepare_old_future [OF d3, of "core_preprepared 1" 2] fut
  have "handlePrepare toy_codec (vote_at 3 2) 2 (core_preprepared 1)
     = (Some errFutureMessage,
        (core_preprepared 1)\<lparr>backlogs :=
           [(2, [(Some \<lparr>ViewNumber = Some 0, Sequence = Some 3\<rparr>, vote_at 3 2)])]\<rparr>)"
    by (simp add: core_preprepared_facts subject_at_def)
  ultimately show ?thesis by simp
qed

end
